theory Spec2Isabelle
  imports Complex_Main
begin

section \<open>The document as the script sees it\<close>

text \<open>
  \<^verbatim>\<open>header.js\<close> is glue over the browser's DOM: it selects elements by class name,
  walks from an element to its ancestors and descendants, and mutates class lists,
  the \<^verbatim>\<open>aria-expanded\<close> attribute and one inline height.  It never inserts, moves or
  removes an element.

  An element is named by its position in the tree: the list of child indices on the way
  from the element up to the root element, nearest index first.  The root element
  (\<^verbatim>\<open>html\<close>) is \<open>[]\<close>, its second child is \<open>[1]\<close>, the first child of that one is
  \<open>[0, 1]\<close>.  Two names are equal exactly when they name the same element, which is what
  the \<^verbatim>\<open>!==\<close> of the script compares.
\<close>

type_synonym node = "nat list"

datatype tree = Tree "tree list"

datatype error = TypeError

text \<open>
  The inline height is either cleared (\<^verbatim>\<open>style.height = ''\<close>, here \<open>None\<close>) or a number
  of pixels (\<^verbatim>\<open>h + 'px'\<close>, here \<open>Some h\<close>).  \<open>boundingHeight\<close> is what
  \<^verbatim>\<open>getBoundingClientRect().height\<close> returns for an element and \<open>pageYOffset\<close> is
  \<^verbatim>\<open>window.pageYOffset\<close>; both are finite numbers, compared as such.
  \<open>body\<close> is \<^verbatim>\<open>document.body\<close>, which is \<^verbatim>\<open>null\<close> in a document without one.
  \<open>disabled\<close> says whether an element is a form control that is disabled (a \<^verbatim>\<open>button\<close>
  or \<^verbatim>\<open>input\<close> with the \<^verbatim>\<open>disabled\<close> attribute, say); the script never changes that.
\<close>

record dom =
  root :: tree
  body :: "node option"
  classList :: "node \<Rightarrow> string set"
  attributes :: "node \<Rightarrow> string \<rightharpoonup> string"
  styleHeight :: "node \<Rightarrow> real option"
  boundingHeight :: "node \<Rightarrow> real"
  pageYOffset :: real
  disabled :: "node \<Rightarrow> bool"

subsection \<open>Tree navigation\<close>

fun ancestors :: "node \<Rightarrow> node list" where
  "ancestors [] = []"
| "ancestors (k # p) = p # ancestors p"

definition parentElement :: "node \<Rightarrow> node option" where
  "parentElement n = (case n of [] \<Rightarrow> None | k # p \<Rightarrow> Some p)"

text \<open>The elements below a position, in document order (an element before its children).\<close>

fun elements_at :: "node \<Rightarrow> tree \<Rightarrow> node list"
  and children_at :: "node \<Rightarrow> nat \<Rightarrow> tree list \<Rightarrow> node list" where
  "elements_at p (Tree ts) = p # children_at p 0 ts"
| "children_at p k [] = []"
| "children_at p k (t # ts) = elements_at (k # p) t @ children_at p (Suc k) ts"

definition elements :: "dom \<Rightarrow> node list" where
  "elements d = elements_at [] (root d)"

subsection \<open>Selectors\<close>

text \<open>
  The script uses class selectors only: \<^verbatim>\<open>document.querySelectorAll('.c')\<close>,
  \<^verbatim>\<open>el.querySelectorAll('.c')\<close> (every proper descendant of \<^verbatim>\<open>el\<close> with the class, at
  any depth), \<^verbatim>\<open>querySelector\<close> (the first match in document order or \<^verbatim>\<open>null\<close>),
  the child combinator \<^verbatim>\<open>'.a > .b'\<close>, and \<^verbatim>\<open>el.closest('.c')\<close> (the element itself or
  its nearest ancestor with the class).  The result of \<^verbatim>\<open>querySelectorAll\<close> is a static
  list: a snapshot taken when it is called.
\<close>

definition first_of :: "node list \<Rightarrow> node option" where
  "first_of ns = (case ns of [] \<Rightarrow> None | n # _ \<Rightarrow> Some n)"

definition querySelectorAll :: "dom \<Rightarrow> string \<Rightarrow> node list" where
  "querySelectorAll d c = filter (\<lambda>n. c \<in> classList d n) (elements d)"

definition querySelector :: "dom \<Rightarrow> string \<Rightarrow> node option" where
  "querySelector d c = first_of (querySelectorAll d c)"

definition querySelectorAll_child :: "dom \<Rightarrow> string \<Rightarrow> string \<Rightarrow> node list" where
  "querySelectorAll_child d a b =
     filter (\<lambda>n. b \<in> classList d n \<and>
                 (case parentElement n of None \<Rightarrow> False | Some p \<Rightarrow> a \<in> classList d p))
            (elements d)"

definition querySelectorAll_in :: "dom \<Rightarrow> node \<Rightarrow> string \<Rightarrow> node list" where
  "querySelectorAll_in d p c =
     filter (\<lambda>n. p \<in> set (ancestors n) \<and> c \<in> classList d n) (elements d)"

definition querySelector_in :: "dom \<Rightarrow> node \<Rightarrow> string \<Rightarrow> node option" where
  "querySelector_in d p c = first_of (querySelectorAll_in d p c)"

definition closest :: "dom \<Rightarrow> node \<Rightarrow> string \<Rightarrow> node option" where
  "closest d n c = find (\<lambda>a. c \<in> classList d a) (n # ancestors n)"

subsection \<open>Mutators\<close>

definition classList_add :: "dom \<Rightarrow> node \<Rightarrow> string \<Rightarrow> dom" where
  "classList_add d n c = d\<lparr>classList := (classList d)(n := insert c (classList d n))\<rparr>"

definition classList_remove :: "dom \<Rightarrow> node \<Rightarrow> string \<Rightarrow> dom" where
  "classList_remove d n c = d\<lparr>classList := (classList d)(n := classList d n - {c})\<rparr>"

text \<open>\<^verbatim>\<open>classList.toggle\<close> returns whether the class is present afterwards.\<close>

definition classList_toggle :: "dom \<Rightarrow> node \<Rightarrow> string \<Rightarrow> dom \<times> bool" where
  "classList_toggle d n c =
     (if c \<in> classList d n then (classList_remove d n c, False)
      else (classList_add d n c, True))"

definition setAttribute :: "dom \<Rightarrow> node \<Rightarrow> string \<Rightarrow> string \<Rightarrow> dom" where
  "setAttribute d n k v = d\<lparr>attributes := (attributes d)(n := (attributes d n)(k \<mapsto> v))\<rparr>"

definition getAttribute :: "dom \<Rightarrow> node \<Rightarrow> string \<Rightarrow> string option" where
  "getAttribute d n k = attributes d n k"

section \<open>The script\<close>

subsection \<open>Class and attribute names\<close>

definition mnav_open :: string where "mnav_open = ''mnav__open''"
definition mnav_close :: string where "mnav_close = ''mnav__close''"
definition mnav_overlay :: string where "mnav_overlay = ''mnav__overlay''"
definition mnav_toggle :: string where "mnav_toggle = ''mnav__menu__toggle''"
definition mnav_item :: string where "mnav_item = ''mnav__menu__item''"
definition mnav_item_parent :: string where "mnav_item_parent = ''mnav__menu__item--parent''"
definition mnav_link :: string where "mnav_link = ''mnav__menu__link''"
definition mnav_expanded :: string where "mnav_expanded = ''mnav__menu__item--expanded''"
definition mnav_active :: string where "mnav_active = ''mnav-active''"
definition sticky_element :: string where "sticky_element = ''header__sticky-element''"
definition header_sticky :: string where "header_sticky = ''header--sticky''"
definition sticky_active :: string where "sticky_active = ''header--sticky-active''"
definition sticky_inactive :: string where "sticky_inactive = ''header--sticky-inactive''"
definition aria_expanded :: string where "aria_expanded = ''aria-expanded''"

subsection \<open>Mobile navigation (lines 17 to 25)\<close>

text \<open>
  \<open>mo\<close> is the script's constant \<^verbatim>\<open>mnavOpen\<close>.  \<^verbatim>\<open>document.body.classList\<close> throws a
  \<^verbatim>\<open>TypeError\<close> when the document has no body; that is the first thing either function
  does, so nothing has been changed when it throws.
\<close>

definition openMobileNav :: "node option \<Rightarrow> dom \<Rightarrow> error + dom" where
  "openMobileNav mo d =
     (case body d of
        None \<Rightarrow> Inl TypeError
      | Some b \<Rightarrow>
          let d1 = classList_add d b mnav_active
          in Inr (case mo of None \<Rightarrow> d1 | Some t \<Rightarrow> setAttribute d1 t aria_expanded ''true''))"

definition closeMobileNav :: "node option \<Rightarrow> dom \<Rightarrow> error + dom" where
  "closeMobileNav mo d =
     (case body d of
        None \<Rightarrow> Inl TypeError
      | Some b \<Rightarrow>
          let d1 = classList_remove d b mnav_active
          in Inr (case mo of None \<Rightarrow> d1 | Some t \<Rightarrow> setAttribute d1 t aria_expanded ''false''))"

subsection \<open>Escape key (lines 81 to 85)\<close>

text \<open>
  \<open>k\<close> is \<^verbatim>\<open>e.key\<close>.  \<^verbatim>\<open>&&\<close> evaluates its right operand only when the key is Escape, so
  a missing body throws only then.
\<close>

definition keydown_handler :: "node option \<Rightarrow> string \<Rightarrow> dom \<Rightarrow> error + dom" where
  "keydown_handler mo k d =
     (if k = ''Escape'' then
        (case body d of
           None \<Rightarrow> Inl TypeError
         | Some b \<Rightarrow> if mnav_active \<in> classList d b then closeMobileNav mo d else Inr d)
      else Inr d)"

subsection \<open>Submenu toggle (lines 46 to 66)\<close>

text \<open>
  The body of the \<^verbatim>\<open>siblings.forEach\<close> callback.  \<^verbatim>\<open>sibling.querySelector\<close> is evaluated
  in the document as the earlier iterations have left it.
\<close>

definition collapse_sibling :: "node \<Rightarrow> node \<Rightarrow> dom \<Rightarrow> dom" where
  "collapse_sibling item sibling d =
     (if sibling \<noteq> item then
        let d1 = classList_remove d sibling mnav_expanded
        in (case querySelector_in d1 sibling mnav_toggle of
              None \<Rightarrow> d1
            | Some siblingToggle \<Rightarrow> setAttribute d1 siblingToggle aria_expanded ''false'')
      else d)"

text \<open>
  The click listener of one toggle.  \<^verbatim>\<open>item.parentElement\<close> is \<^verbatim>\<open>null\<close> for the root
  element, and \<^verbatim>\<open>null.querySelectorAll\<close> throws before anything has been changed.
\<close>

definition toggle_click :: "node \<Rightarrow> dom \<Rightarrow> error + dom" where
  "toggle_click toggle d =
     (case closest d toggle mnav_item of
        None \<Rightarrow> Inr d
      | Some item \<Rightarrow>
          (case parentElement item of
             None \<Rightarrow> Inl TypeError
           | Some parent \<Rightarrow>
               let siblings = querySelectorAll_in d parent mnav_expanded;
                   d1 = fold (collapse_sibling item) siblings d;
                   (d2, isExpanded) = classList_toggle d1 item mnav_expanded
               in Inr (setAttribute d2 toggle aria_expanded
                         (if isExpanded then ''true'' else ''false''))))"

subsection \<open>Sticky header (lines 93 to 107)\<close>

text \<open>
  \<open>hs\<close> is \<^verbatim>\<open>headerSticky\<close> and \<open>h\<close> is \<^verbatim>\<open>headerStickyProp.height\<close>, measured once when
  the script starts.
\<close>

definition handleStickyHeader :: "node \<Rightarrow> real \<Rightarrow> dom \<Rightarrow> dom" where
  "handleStickyHeader hs h d =
     (if pageYOffset d > h then
        let d1 = d\<lparr>styleHeight := (styleHeight d)(hs := Some h)\<rparr>;
            d2 = classList_add d1 hs sticky_active
        in classList_remove d2 hs sticky_inactive
      else
        let d1 = (if sticky_active \<in> classList d hs
                  then classList_add d hs sticky_inactive else d);
            d2 = d1\<lparr>styleHeight := (styleHeight d1)(hs := None)\<rparr>
        in classList_remove d2 hs sticky_active)"

subsection \<open>Listeners\<close>

text \<open>
  A listener is a target, an event type and a callback.  The callbacks of the script are
  closures over the elements they were created for; here each is a constructor carrying
  those elements.
\<close>

datatype target = Element node | Document | Window

datatype handler =
    OpenClick
  | CloseClick
  | OverlayClick
  | ToggleClick node
  | ParentLinkClick node
  | EscapeKeydown
  | StickyHeader node real

record listener =
  on_target :: target
  on_event :: string
  callback :: handler
  is_passive :: bool

text \<open>The constants of the script (lines 11 to 15) and the listeners it has registered.\<close>

record script =
  mnavOpen :: "node option"
  mnavClose :: "node option"
  mnavOverlay :: "node option"
  mnavToggles :: "node list"
  mnavParentLinks :: "node list"
  listeners :: "listener list"

definition on_click :: "node \<Rightarrow> handler \<Rightarrow> listener" where
  "on_click n h = \<lparr>on_target = Element n, on_event = ''click'', callback = h, is_passive = False\<rparr>"

definition on_keydown :: "handler \<Rightarrow> listener" where
  "on_keydown h = \<lparr>on_target = Document, on_event = ''keydown'', callback = h, is_passive = False\<rparr>"

definition on_window :: "handler \<Rightarrow> string \<Rightarrow> listener" where
  "on_window h e = \<lparr>on_target = Window, on_event = e, callback = h, is_passive = True\<rparr>"

subsection \<open>Event delivery\<close>

text \<open>
  An exception thrown by a listener is reported by the browser and ends that listener;
  the document stays as the listener left it.  Every \<^verbatim>\<open>throw\<close> of this script happens
  before the listener's first mutation, so that is the document it was called on.
\<close>

definition settle :: "dom \<Rightarrow> error + dom \<Rightarrow> dom" where
  "settle d r = (case r of Inl _ \<Rightarrow> d | Inr d' \<Rightarrow> d')"

text \<open>
  \<^verbatim>\<open>toggle.click()\<close>: the method returns at once when the element is a disabled form
  control; otherwise it dispatches a click at the element.  The listener of this script
  that answers a click on a toggle is the submenu listener, registered for the elements of
  \<^verbatim>\<open>mnavToggles\<close>.  Listeners reached in another role of the same element, or on an
  enclosing element by bubbling, arise only where one control of the markup is nested in
  or identical to another; they are outside this model, which delivers an event to the
  listener of the control it is aimed at.
\<close>

definition click :: "script \<Rightarrow> node \<Rightarrow> dom \<Rightarrow> dom" where
  "click s t d =
     (if disabled d t then d
      else if t \<in> set (mnavToggles s) then settle d (toggle_click t d)
      else d)"

subsection \<open>Parent link (lines 71 to 76)\<close>

definition parent_link_click :: "script \<Rightarrow> node \<Rightarrow> dom \<Rightarrow> dom" where
  "parent_link_click s link d =
     (case closest d link mnav_item of
        None \<Rightarrow> d
      | Some item \<Rightarrow>
          (case querySelector_in d item mnav_toggle of
             None \<Rightarrow> d
           | Some toggle \<Rightarrow> click s toggle d))"

text \<open>
  Running a callback; \<open>k\<close> is the \<^verbatim>\<open>key\<close> of the event, read by the keydown listener
  only.  \<^verbatim>\<open>preventDefault\<close> concerns the browser's own navigation and changes nothing
  in the document.
\<close>

fun run :: "script \<Rightarrow> handler \<Rightarrow> string \<Rightarrow> dom \<Rightarrow> error + dom" where
  "run s OpenClick k d = openMobileNav (mnavOpen s) d"
| "run s CloseClick k d = closeMobileNav (mnavOpen s) d"
| "run s OverlayClick k d = closeMobileNav (mnavOpen s) d"
| "run s (ToggleClick t) k d = toggle_click t d"
| "run s (ParentLinkClick l) k d = Inr (parent_link_click s l d)"
| "run s EscapeKeydown k d = keydown_handler (mnavOpen s) k d"
| "run s (StickyHeader hs h) k d = Inr (handleStickyHeader hs h d)"

definition deliver :: "script \<Rightarrow> handler \<Rightarrow> string \<Rightarrow> dom \<Rightarrow> dom" where
  "deliver s h k d = settle d (run s h k d)"

subsection \<open>Start-up (the body of the function expression, lines 11 to 116)\<close>

text \<open>Lines 11 to 85: the queries, and the listeners in the order they are registered.\<close>

definition start_navigation :: "dom \<Rightarrow> script" where
  "start_navigation d =
     (let mo = querySelector d mnav_open;
          mc = querySelector d mnav_close;
          ov = querySelector d mnav_overlay;
          ts = querySelectorAll d mnav_toggle;
          ls = querySelectorAll_child d mnav_item_parent mnav_link
      in \<lparr>mnavOpen = mo, mnavClose = mc, mnavOverlay = ov,
          mnavToggles = ts, mnavParentLinks = ls,
          listeners =
            (case mo of None \<Rightarrow> [] | Some n \<Rightarrow> [on_click n OpenClick]) @
            (case mc of None \<Rightarrow> [] | Some n \<Rightarrow> [on_click n CloseClick]) @
            (case ov of None \<Rightarrow> [] | Some n \<Rightarrow> [on_click n OverlayClick]) @
            map (\<lambda>t. on_click t (ToggleClick t)) ts @
            map (\<lambda>l. on_click l (ParentLinkClick l))
              (filter (\<lambda>l. getAttribute d l ''href'' = Some ''javascript:;'') ls) @
            [on_keydown EscapeKeydown]\<rparr>)"

text \<open>
  Lines 88 to 116.  The result is the script with the listeners registered so far, and
  either the document after the first call of \<^verbatim>\<open>handleStickyHeader\<close> or the exception
  of \<^verbatim>\<open>headerSticky.getBoundingClientRect()\<close> on \<^verbatim>\<open>null\<close>.
\<close>

definition init :: "dom \<Rightarrow> script \<times> (error + dom)" where
  "init d =
     (let s = start_navigation d
      in case querySelector d sticky_element of
           None \<Rightarrow> (s, Inr d)
         | Some headerStickyElement \<Rightarrow>
             (case querySelector d header_sticky of
                None \<Rightarrow> (s, Inl TypeError)
              | Some hs \<Rightarrow>
                  let h = boundingHeight d hs
                  in (s\<lparr>listeners := listeners s @
                          map (on_window (StickyHeader hs h)) [''resize'', ''scroll'', ''load'']\<rparr>,
                      Inr (handleStickyHeader hs h d))))"

section \<open>Properties of the states\<close>

text \<open>The child elements of \<open>p\<close> that carry the expanded marker, in document order.\<close>

definition expanded_children :: "dom \<Rightarrow> node \<Rightarrow> node list" where
  "expanded_children d p =
     filter (\<lambda>n. parentElement n = Some p \<and> mnav_expanded \<in> classList d n) (elements d)"

definition at_most_one_expanded :: "dom \<Rightarrow> node \<Rightarrow> bool" where
  "at_most_one_expanded d p \<longleftrightarrow>
     (\<forall>a \<in> set (expanded_children d p). \<forall>b \<in> set (expanded_children d p). a = b)"

text \<open>
  The toggle control of a menu item: \<^verbatim>\<open>toggle.closest('.mnav__menu__item')\<close> leads from a
  toggle to its item.  \<open>aria_mirrors\<close> says that every toggle of the document that has a
  menu item carries \<^verbatim>\<open>aria-expanded\<close> \<^verbatim>\<open>"true"\<close> when the item is expanded and \<^verbatim>\<open>"false"\<close>
  when it is not.
\<close>

definition aria_mirrors :: "dom \<Rightarrow> bool" where
  "aria_mirrors d \<longleftrightarrow>
     (\<forall>t \<in> set (querySelectorAll d mnav_toggle).
        case closest d t mnav_item of
          None \<Rightarrow> True
        | Some i \<Rightarrow>
            getAttribute d t aria_expanded =
              Some (if mnav_expanded \<in> classList d i then ''true'' else ''false''))"

text \<open>
  The markup the script is written for: the toggle of a menu item is the first toggle
  inside that item (so an item has one toggle of its own, placed before its submenu), and
  only menu items carry the expanded marker.
\<close>

definition menu_markup :: "dom \<Rightarrow> bool" where
  "menu_markup d \<longleftrightarrow>
     (\<forall>t \<in> set (querySelectorAll d mnav_toggle).
        case closest d t mnav_item of
          None \<Rightarrow> True
        | Some i \<Rightarrow> querySelector_in d i mnav_toggle = Some t) \<and>
     (\<forall>n \<in> set (querySelectorAll d mnav_expanded). mnav_item \<in> classList d n)"

subsection \<open>Mobile navigation as a sequence of actions\<close>

datatype nav_action = OpenTriggerClick | CloseTriggerClick | OverlayClicked | EscapePressed

fun perform :: "script \<Rightarrow> nav_action \<Rightarrow> dom \<Rightarrow> dom" where
  "perform s OpenTriggerClick d = deliver s OpenClick [] d"
| "perform s CloseTriggerClick d = deliver s CloseClick [] d"
| "perform s OverlayClicked d = deliver s OverlayClick [] d"
| "perform s EscapePressed d = deliver s EscapeKeydown ''Escape'' d"

definition nav_is_open :: "dom \<Rightarrow> bool" where
  "nav_is_open d = (case body d of None \<Rightarrow> False | Some b \<Rightarrow> mnav_active \<in> classList d b)"

text \<open>
  The flag as the specification describes it: an open-trigger click sets it; a
  close-trigger click, an overlay click and Escape pressed while it is set are the close
  actions and clear it; Escape pressed while it is unset is not an action on it.
\<close>

fun spec_nav_flag :: "bool \<Rightarrow> nav_action list \<Rightarrow> bool" where
  "spec_nav_flag flag [] = flag"
| "spec_nav_flag flag (OpenTriggerClick # as) = spec_nav_flag True as"
| "spec_nav_flag flag (CloseTriggerClick # as) = spec_nav_flag False as"
| "spec_nav_flag flag (OverlayClicked # as) = spec_nav_flag False as"
| "spec_nav_flag flag (EscapePressed # as) = spec_nav_flag (if flag then False else flag) as"

subsection \<open>Scrolling\<close>

text \<open>The window is scrolled to offset \<open>y\<close> and the scroll listener runs.\<close>

definition scrolled :: "node \<Rightarrow> real \<Rightarrow> real \<Rightarrow> dom \<Rightarrow> dom" where
  "scrolled hs h y d = handleStickyHeader hs h (d\<lparr>pageYOffset := y\<rparr>)"

section \<open>A page\<close>

text \<open>
  \<^verbatim>\<open>
  html                                  []
    head                                [0]
    body                                [1]
      header.header--sticky             [0,1]
        div.header__sticky-element      [0,0,1]
        button.mnav__open               [1,0,1]
      nav                               [1,1]
        button.mnav__close              [0,1,1]
        ul                              [1,1,1]
          li.mnav__menu__item (A)       [0,1,1,1]     parent, expanded
            a.mnav__menu__link          [0,0,1,1,1]   href="javascript:;"
            button.mnav__menu__toggle   [1,0,1,1,1]   aria-expanded="true"
            ul                          [2,0,1,1,1]
              li.mnav__menu__item (B)   [0,2,0,1,1,1] expanded
                button.mnav__menu__toggle [0,0,2,0,1,1,1] aria-expanded="true"
          li.mnav__menu__item (C)       [1,1,1,1]
            button.mnav__menu__toggle   [0,1,1,1,1]   aria-expanded="false"
      div.mnav__overlay                 [2,1]
  \<close>
  The header is 80 pixels high, the window is scrolled to offset 81, and no control is
  disabled.
\<close>

definition example_page :: dom where
  "example_page =
     \<lparr>root =
        Tree [Tree [],
              Tree [Tree [Tree [], Tree []],
                    Tree [Tree [],
                          Tree [Tree [Tree [], Tree [], Tree [Tree [Tree []]]],
                                Tree [Tree []]]],
                    Tree []]],
      body = Some [1],
      classList = (\<lambda>_. {})
        ([0, 1] := {header_sticky},
         [0, 0, 1] := {sticky_element},
         [1, 0, 1] := {mnav_open},
         [0, 1, 1] := {mnav_close},
         [0, 1, 1, 1] := {mnav_item, mnav_item_parent, mnav_expanded},
         [0, 0, 1, 1, 1] := {mnav_link},
         [1, 0, 1, 1, 1] := {mnav_toggle},
         [0, 2, 0, 1, 1, 1] := {mnav_item, mnav_expanded},
         [0, 0, 2, 0, 1, 1, 1] := {mnav_toggle},
         [1, 1, 1, 1] := {mnav_item},
         [0, 1, 1, 1, 1] := {mnav_toggle},
         [2, 1] := {mnav_overlay}),
      attributes = (\<lambda>_. Map.empty)
        ([0, 0, 1, 1, 1] := [''href'' \<mapsto> ''javascript:;''],
         [1, 0, 1, 1, 1] := [aria_expanded \<mapsto> ''true''],
         [0, 0, 2, 0, 1, 1, 1] := [aria_expanded \<mapsto> ''true''],
         [0, 1, 1, 1, 1] := [aria_expanded \<mapsto> ''false'']),
      styleHeight = (\<lambda>_. None),
      boundingHeight = (\<lambda>_. 0)([0, 1] := 80),
      pageYOffset = 81,
      disabled = (\<lambda>_. False)\<rparr>"

text \<open>
  The example page as a server might send it: no submenu expanded, and no
  \<^verbatim>\<open>aria-expanded\<close> attribute on any toggle.
\<close>

definition unlabelled_page :: dom where
  "unlabelled_page =
     example_page
       \<lparr>classList := (classList example_page)
          ([0, 1, 1, 1] := {mnav_item, mnav_item_parent},
           [0, 2, 0, 1, 1, 1] := {mnav_item}),
        attributes := (\<lambda>_. Map.empty)([0, 0, 1, 1, 1] := [''href'' \<mapsto> ''javascript:;''])\<rparr>"

text \<open>
  The example page with neither the \<^verbatim>\<open>header--sticky\<close> class on the header nor the
  \<^verbatim>\<open>mnav__close\<close> class on the close button: the sticky marker element is there, the
  sticky header and the close trigger are not.
\<close>

definition headerless_page :: dom where
  "headerless_page =
     example_page\<lparr>classList := (classList example_page)([0, 1] := {}, [0, 1, 1] := {})\<rparr>"

text \<open>The same tree with no class on any element: none of the optional elements exists.\<close>

definition bare_page :: dom where
  "bare_page = example_page\<lparr>classList := (\<lambda>_. {})\<rparr>"



section \<open>The submenu listener, step by step\<close>

subsection \<open>The collapse loop\<close>

lemma names_distinct:
  "mnav_toggle \<noteq> mnav_expanded" "mnav_item \<noteq> mnav_expanded"
  "mnav_expanded \<noteq> mnav_toggle" "mnav_expanded \<noteq> mnav_item"
  "sticky_active \<noteq> sticky_inactive" "sticky_inactive \<noteq> sticky_active"
  by (simp_all add: mnav_toggle_def mnav_expanded_def mnav_item_def
        sticky_active_def sticky_inactive_def)

lemma collapse_sibling_frame:
  "root (collapse_sibling i s d) = root d"
  "body (collapse_sibling i s d) = body d"
  "styleHeight (collapse_sibling i s d) = styleHeight d"
  "boundingHeight (collapse_sibling i s d) = boundingHeight d"
  "pageYOffset (collapse_sibling i s d) = pageYOffset d"
  "disabled (collapse_sibling i s d) = disabled d"
  by (simp_all add: collapse_sibling_def classList_remove_def setAttribute_def Let_def
        split: option.splits)

lemma collapse_sibling_classList:
  "classList (collapse_sibling i s d) =
     (if s \<noteq> i then (classList d)(s := classList d s - {mnav_expanded}) else classList d)"
  by (simp add: collapse_sibling_def classList_remove_def setAttribute_def Let_def
        split: option.splits)

lemma fold_collapse_frame:
  "root (fold (collapse_sibling i) ss d) = root d"
  "body (fold (collapse_sibling i) ss d) = body d"
  "styleHeight (fold (collapse_sibling i) ss d) = styleHeight d"
  "boundingHeight (fold (collapse_sibling i) ss d) = boundingHeight d"
  "pageYOffset (fold (collapse_sibling i) ss d) = pageYOffset d"
  "disabled (fold (collapse_sibling i) ss d) = disabled d"
  by (induction ss arbitrary: d; simp add: collapse_sibling_frame)+

lemma fold_collapse_classList:
  "classList (fold (collapse_sibling i) ss d) n =
     (if n \<in> set ss \<and> n \<noteq> i then classList d n - {mnav_expanded} else classList d n)"
proof (induction ss arbitrary: d)
  case Nil
  show ?case by simp
next
  case (Cons s ss)
  show ?case
    by (auto simp: Cons.IH collapse_sibling_classList)
qed

lemma toggle_click_classList:
  assumes "closest d t mnav_item = Some i" and "parentElement i = Some p"
  shows "\<exists>d'. toggle_click t d = Inr d' \<and>
           (\<forall>n. classList d' n =
              (if n = i then
                 (if mnav_expanded \<in> classList d i then classList d i - {mnav_expanded}
                  else insert mnav_expanded (classList d i))
               else if n \<in> set (querySelectorAll_in d p mnav_expanded)
                 then classList d n - {mnav_expanded}
               else classList d n))"
  using assms
  by (auto simp: toggle_click_def Let_def classList_toggle_def setAttribute_def
        classList_add_def classList_remove_def fold_collapse_classList)

lemma parent_in_ancestors: "parentElement n = Some p \<Longrightarrow> p \<in> set (ancestors n)"
  by (cases n) (simp_all add: parentElement_def)

lemma toggle_click_root:
  "toggle_click t d = Inr d' \<Longrightarrow> root d' = root d"
  by (auto simp: toggle_click_def Let_def classList_toggle_def setAttribute_def
        classList_add_def classList_remove_def fold_collapse_frame
        split: option.splits if_splits)

lemma deliver_toggle_cases:
  obtains (unchanged) "deliver s (ToggleClick t) k d = d"
  | (toggled) i p where "closest d t mnav_item = Some i" "parentElement i = Some p"
      "toggle_click t d = Inr (deliver s (ToggleClick t) k d)"
proof (cases "closest d t mnav_item")
  case None
  then have "deliver s (ToggleClick t) k d = d"
    by (simp add: deliver_def settle_def toggle_click_def)
  then show ?thesis by (rule unchanged)
next
  case (Some i)
  show ?thesis
  proof (cases "parentElement i")
    case None
    with Some have "deliver s (ToggleClick t) k d = d"
      by (simp add: deliver_def settle_def toggle_click_def)
    then show ?thesis by (rule unchanged)
  next
    case (Some p)
    from toggle_click_classList [OF \<open>closest d t mnav_item = Some i\<close> Some]
    obtain d' where "toggle_click t d = Inr d'" by blast
    then have "toggle_click t d = Inr (deliver s (ToggleClick t) k d)"
      by (simp add: deliver_def settle_def)
    with \<open>closest d t mnav_item = Some i\<close> Some show ?thesis by (rule toggled)
  qed
qed

lemma expanded_after_toggle:
  assumes "closest d t mnav_item = Some i" and "parentElement i = Some p"
    and "toggle_click t d = Inr d'"
  shows "mnav_expanded \<in> classList d' n \<longleftrightarrow>
           (if n = i then mnav_expanded \<notin> classList d i
            else mnav_expanded \<in> classList d n \<and>
                 n \<notin> set (querySelectorAll_in d p mnav_expanded))"
  using toggle_click_classList [OF assms(1,2)] assms(3) by auto

lemma toggle_click_only_item_left:
  assumes "closest d t mnav_item = Some i" and "parentElement i = Some p"
    and "toggle_click t d = Inr d'"
    and "n \<in> set (elements d)" and "p \<in> set (ancestors n)"
    and "mnav_expanded \<in> classList d' n"
  shows "n = i"
proof (rule ccontr)
  assume "n \<noteq> i"
  with expanded_after_toggle [OF assms(1-3), of n] assms(6)
  have "mnav_expanded \<in> classList d n" "n \<notin> set (querySelectorAll_in d p mnav_expanded)"
    by simp_all
  with assms(4,5) show False by (simp add: querySelectorAll_in_def)
qed

lemma toggle_click_at_most_one:
  assumes "closest d t mnav_item = Some i" and "parentElement i = Some p"
    and "toggle_click t d = Inr d'"
  shows "at_most_one_expanded d' p"
proof -
  have el: "elements d' = elements d"
    using toggle_click_root [OF assms(3)] by (simp add: elements_def)
  have "n = i" if "n \<in> set (expanded_children d' p)" for n
    using that toggle_click_only_item_left [OF assms, of n]
    by (auto simp: expanded_children_def el parent_in_ancestors)
  then show ?thesis by (auto simp: at_most_one_expanded_def)
qed

lemma toggle_click_preserves_at_most_one:
  assumes "at_most_one_expanded d q"
  shows "at_most_one_expanded (deliver s (ToggleClick t) k d) q"
proof (cases rule: deliver_toggle_cases [of s t k d])
  case unchanged
  with assms show ?thesis by simp
next
  case (toggled i p)
  let ?d' = "deliver s (ToggleClick t) k d"
  show ?thesis
  proof (cases "q = p")
    case True
    with toggle_click_at_most_one [OF toggled] show ?thesis by simp
  next
    case False
    have el: "elements ?d' = elements d"
      using toggle_click_root [OF toggled(3)] by (simp add: elements_def)
    have "n \<in> set (expanded_children d q)" if "n \<in> set (expanded_children ?d' q)" for n
    proof -
      from that have n: "n \<in> set (elements d)" "parentElement n = Some q"
        "mnav_expanded \<in> classList ?d' n"
        by (simp_all add: expanded_children_def el)
      from n(2) toggled(2) False have "n \<noteq> i" by auto
      with expanded_after_toggle [OF toggled, of n] n(3)
      have "mnav_expanded \<in> classList d n" by simp
      with n show ?thesis by (simp add: expanded_children_def)
    qed
    with assms show ?thesis unfolding at_most_one_expanded_def by blast
  qed
qed

lemma toggle_clicks_preserve_at_most_one:
  "at_most_one_expanded d q \<Longrightarrow>
   at_most_one_expanded (fold (\<lambda>t. deliver s (ToggleClick t) k) ts d) q"
  by (induction ts arbitrary: d) (simp_all add: toggle_click_preserves_at_most_one)

lemma toggle_click_collapses_group:
  assumes "closest d t mnav_item = Some i" and "parentElement i = Some p"
    and "toggle_click t d = Inr d'" and "mnav_expanded \<in> classList d i"
  shows "mnav_expanded \<notin> classList d' i \<and> expanded_children d' p = []"
proof -
  have el: "elements d' = elements d"
    using toggle_click_root [OF assms(3)] by (simp add: elements_def)
  have i: "mnav_expanded \<notin> classList d' i"
    using expanded_after_toggle [OF assms(1-3), of i] assms(4) by simp
  have "n \<notin> set (expanded_children d' p)" for n
  proof
    assume "n \<in> set (expanded_children d' p)"
    then have "n = i" "mnav_expanded \<in> classList d' n"
      using toggle_click_only_item_left [OF assms(1-3), of n]
      by (auto simp: expanded_children_def el parent_in_ancestors)
    with i show False by simp
  qed
  then have "expanded_children d' p = []"
    by (metis list.set_intros(1) neq_Nil_conv)
  with i show ?thesis by simp
qed

subsection \<open>Ancestors\<close>

lemma ancestors_shorter: "a \<in> set (ancestors n) \<Longrightarrow> length a < length n"
  by (induction n) auto

lemma ancestors_trans:
  "a \<in> set (ancestors b) \<Longrightarrow> b \<in> set (ancestors c) \<Longrightarrow> a \<in> set (ancestors c)"
  by (induction c) auto

lemma closest_Some:
  "closest d n c = Some i \<Longrightarrow> i \<in> set (n # ancestors n) \<and> c \<in> classList d i"
  by (induction n) (auto simp: closest_def split: if_splits)

lemma closest_nearest:
  "closest d n c = Some i \<Longrightarrow> a \<in> set (n # ancestors n) \<Longrightarrow> c \<in> classList d a \<Longrightarrow>
   a = i \<or> a \<in> set (ancestors i)"
proof (induction n)
  case Nil
  then show ?case by (simp add: closest_def)
next
  case (Cons k p)
  show ?case
  proof (cases "c \<in> classList d (k # p)")
    case True
    with Cons.prems show ?thesis by (auto simp: closest_def)
  next
    case False
    with Cons.prems have "closest d p c = Some i" "a \<in> set (p # ancestors p)"
      by (auto simp: closest_def)
    with Cons.IH Cons.prems(3) show ?thesis by blast
  qed
qed

lemma elements_at_ancestors:
  "n \<in> set (elements_at p t) \<Longrightarrow> a \<in> set (ancestors n) \<Longrightarrow>
     a \<in> set (elements_at p t) \<or> a \<in> set (ancestors p)"
  "n \<in> set (children_at p k ts) \<Longrightarrow> a \<in> set (ancestors n) \<Longrightarrow>
     a \<in> set (children_at p k ts) \<or> a = p \<or> a \<in> set (ancestors p)"
proof (induction p t and p k ts arbitrary: n a and n a rule: elements_at_children_at.induct)
  case (1 p ts)
  from "1.prems" "1.IH" show ?case by auto
next
  case (2 p k)
  then show ?case by simp
next
  case (3 p k t ts)
  from "3.prems"(1) consider "n \<in> set (elements_at (k # p) t)"
    | "n \<in> set (children_at p (Suc k) ts)" by auto
  then show ?case
  proof cases
    case 1
    from "3.IH"(1) [OF 1 "3.prems"(2)] show ?thesis by auto
  next
    case 2
    from "3.IH"(2) [OF 2 "3.prems"(2)] show ?thesis by auto
  qed
qed

lemma elements_ancestors:
  "n \<in> set (elements d) \<Longrightarrow> a \<in> set (ancestors n) \<Longrightarrow> a \<in> set (elements d)"
  using elements_at_ancestors(1) [of n "[]" "root d" a] by (simp add: elements_def)

subsection \<open>Queries depend on the tree and on the class asked for\<close>

lemma querySelectorAll_in_cong:
  "root d' = root d \<Longrightarrow> (\<And>n. c \<in> classList d' n \<longleftrightarrow> c \<in> classList d n) \<Longrightarrow>
   querySelectorAll_in d' p c = querySelectorAll_in d p c"
  by (simp add: querySelectorAll_in_def elements_def)

lemma querySelector_in_cong:
  "root d' = root d \<Longrightarrow> (\<And>n. c \<in> classList d' n \<longleftrightarrow> c \<in> classList d n) \<Longrightarrow>
   querySelector_in d' p c = querySelector_in d p c"
  using querySelectorAll_in_cong [of d' d c p] by (simp add: querySelector_in_def)

lemma querySelectorAll_cong:
  "root d' = root d \<Longrightarrow> (\<And>n. c \<in> classList d' n \<longleftrightarrow> c \<in> classList d n) \<Longrightarrow>
   querySelectorAll d' c = querySelectorAll d c"
  by (simp add: querySelectorAll_def elements_def)

lemma closest_cong:
  "(\<And>n. c \<in> classList d' n \<longleftrightarrow> c \<in> classList d n) \<Longrightarrow> closest d' n c = closest d n c"
  by (simp add: closest_def)

lemma querySelector_in_Some:
  "querySelector_in d p c = Some n \<Longrightarrow>
   n \<in> set (elements d) \<and> p \<in> set (ancestors n) \<and> c \<in> classList d n"
proof -
  assume "querySelector_in d p c = Some n"
  then have "n \<in> set (querySelectorAll_in d p c)"
    by (auto simp: querySelector_in_def first_of_def split: list.splits)
  then show ?thesis by (simp add: querySelectorAll_in_def)
qed

subsection \<open>Attributes after the collapse loop\<close>

lemma collapse_sibling_toggle_class:
  "mnav_toggle \<in> classList (collapse_sibling i s d) n \<longleftrightarrow> mnav_toggle \<in> classList d n"
  using names_distinct by (auto simp: collapse_sibling_classList)

lemma collapse_sibling_attributes:
  "attributes (collapse_sibling i s d) n k =
     (if s \<noteq> i \<and> k = aria_expanded \<and> querySelector_in d s mnav_toggle = Some n
      then Some ''false'' else attributes d n k)"
proof -
  have "querySelector_in (classList_remove d s mnav_expanded) s mnav_toggle =
        querySelector_in d s mnav_toggle"
    using names_distinct
    by (intro querySelector_in_cong) (auto simp: classList_remove_def)
  then show ?thesis
    by (auto simp: collapse_sibling_def Let_def setAttribute_def classList_remove_def
          split: option.splits)
qed

lemma fold_collapse_attributes:
  "attributes (fold (collapse_sibling i) ss d) n k =
     (if k = aria_expanded \<and>
         (\<exists>s \<in> set ss. s \<noteq> i \<and> querySelector_in d s mnav_toggle = Some n)
      then Some ''false'' else attributes d n k)"
proof (induction ss arbitrary: d)
  case Nil
  show ?case by simp
next
  case (Cons s ss)
  have q: "querySelector_in (collapse_sibling i s d) s' mnav_toggle =
           querySelector_in d s' mnav_toggle" for s'
    by (intro querySelector_in_cong collapse_sibling_frame collapse_sibling_toggle_class)
  show ?case
    by (auto simp: Cons.IH q collapse_sibling_attributes)
qed

lemma toggle_click_attributes:
  assumes "closest d t mnav_item = Some i" and "parentElement i = Some p"
    and "toggle_click t d = Inr d'"
  shows "attributes d' n k =
     (if n = t \<and> k = aria_expanded
        then Some (if mnav_expanded \<in> classList d i then ''false'' else ''true'')
      else if k = aria_expanded \<and>
          (\<exists>s \<in> set (querySelectorAll_in d p mnav_expanded).
             s \<noteq> i \<and> querySelector_in d s mnav_toggle = Some n)
        then Some ''false''
      else attributes d n k)"
proof -
  let ?d1 = "fold (collapse_sibling i) (querySelectorAll_in d p mnav_expanded) d"
  have i: "mnav_expanded \<in> classList ?d1 i \<longleftrightarrow> mnav_expanded \<in> classList d i"
    by (simp add: fold_collapse_classList)
  have "d' = setAttribute (fst (classList_toggle ?d1 i mnav_expanded)) t aria_expanded
               (if mnav_expanded \<in> classList d i then ''false'' else ''true'')"
    using assms
    by (cases "mnav_expanded \<in> classList d i")
       (simp_all add: toggle_click_def Let_def classList_toggle_def i)
  then have "attributes d' n k =
               (if n = t \<and> k = aria_expanded
                then Some (if mnav_expanded \<in> classList d i then ''false'' else ''true'')
                else attributes ?d1 n k)"
    by (simp add: setAttribute_def classList_toggle_def classList_add_def
          classList_remove_def)
  then show ?thesis
    by (simp only: fold_collapse_attributes)
qed

lemma toggle_click_other_classes:
  assumes "toggle_click t d = Inr d'" and "c \<noteq> mnav_expanded"
  shows "c \<in> classList d' n \<longleftrightarrow> c \<in> classList d n"
proof (cases "closest d t mnav_item")
  case None
  with assms(1) show ?thesis by (simp add: toggle_click_def)
next
  case (Some i)
  show ?thesis
  proof (cases "parentElement i")
    case None
    with Some assms(1) show ?thesis by (simp add: toggle_click_def)
  next
    case (Some p)
    from toggle_click_classList [OF \<open>closest d t mnav_item = Some i\<close> Some] assms(1)
    have "classList d' n =
            (if n = i then
               (if mnav_expanded \<in> classList d i then classList d i - {mnav_expanded}
                else insert mnav_expanded (classList d i))
             else if n \<in> set (querySelectorAll_in d p mnav_expanded)
               then classList d n - {mnav_expanded}
             else classList d n)"
      by auto
    with assms(2) show ?thesis by (simp split: if_splits)
  qed
qed

lemma toggle_click_mirrors_clicked:
  assumes cl: "closest d t mnav_item = Some i" and pa: "parentElement i = Some p"
    and tc: "toggle_click t d = Inr d'"
  shows "getAttribute d' t aria_expanded =
           Some (if mnav_expanded \<in> classList d' i then ''true'' else ''false'')"
  using toggle_click_attributes [OF cl pa tc, of t aria_expanded]
    expanded_after_toggle [OF cl pa tc, of i]
  by (simp add: getAttribute_def)

lemma sibling_toggle_is_not_clicked:
  assumes cl: "closest d t mnav_item = Some i" and pa: "parentElement i = Some p"
    and s: "s \<in> set (querySelectorAll_in d p mnav_expanded)" "s \<noteq> i"
      "mnav_item \<in> classList d s"
    and st: "querySelector_in d s mnav_toggle = Some st"
  shows "st \<noteq> t"
proof
  assume "st = t"
  with querySelector_in_Some [OF st] have "s \<in> set (t # ancestors t)" by simp
  from closest_nearest [OF cl this s(3)] s(2) have "s \<in> set (ancestors i)" by simp
  moreover from pa have "ancestors i = p # ancestors p"
    by (cases i) (simp_all add: parentElement_def)
  ultimately have "s = p \<or> s \<in> set (ancestors p)" by simp
  then have "length s \<le> length p" using ancestors_shorter [of s p] by auto
  moreover from s(1) have "p \<in> set (ancestors s)" by (simp add: querySelectorAll_in_def)
  then have "length p < length s" by (rule ancestors_shorter)
  ultimately show False by simp
qed

lemma toggle_click_mirrors_collapsed:
  assumes cl: "closest d t mnav_item = Some i" and pa: "parentElement i = Some p"
    and tc: "toggle_click t d = Inr d'"
    and s: "s \<in> set (querySelectorAll_in d p mnav_expanded)" "s \<noteq> i"
      "mnav_item \<in> classList d s"
  shows "mnav_expanded \<notin> classList d' s"
    and "querySelector_in d' s mnav_toggle = Some st \<Longrightarrow>
         getAttribute d' st aria_expanded = Some ''false''"
proof -
  show "mnav_expanded \<notin> classList d' s"
    using expanded_after_toggle [OF cl pa tc, of s] s by simp
  assume "querySelector_in d' s mnav_toggle = Some st"
  moreover have "querySelector_in d' s mnav_toggle = querySelector_in d s mnav_toggle"
    by (rule querySelector_in_cong [OF toggle_click_root [OF tc]])
       (rule toggle_click_other_classes [OF tc], rule names_distinct)
  ultimately have st: "querySelector_in d s mnav_toggle = Some st" by simp
  from sibling_toggle_is_not_clicked [OF cl pa s st] have "st \<noteq> t" .
  with toggle_click_attributes [OF cl pa tc, of st aria_expanded] s st
  show "getAttribute d' st aria_expanded = Some ''false''"
    by (auto simp: getAttribute_def)
qed

lemma toggle_click_preserves_mirror:
  assumes mk: "menu_markup d" and mi: "aria_mirrors d"
    and t0: "t0 \<in> set (querySelectorAll d mnav_toggle)"
    and cl: "closest d t0 mnav_item = Some i0" and pa: "parentElement i0 = Some p0"
    and tc: "toggle_click t0 d = Inr d'"
  shows "menu_markup d' \<and> aria_mirrors d'"
proof -
  note oc = toggle_click_other_classes [OF tc]
  note ex = expanded_after_toggle [OF cl pa tc]
  note at = toggle_click_attributes [OF cl pa tc]
  have rt: "root d' = root d" by (rule toggle_click_root [OF tc])
  then have el: "elements d' = elements d" by (simp add: elements_def)
  have tog: "querySelectorAll d' mnav_toggle = querySelectorAll d mnav_toggle"
    by (rule querySelectorAll_cong [OF rt]) (rule oc, rule names_distinct)
  have clo: "closest d' t mnav_item = closest d t mnav_item" for t
    by (rule closest_cong) (rule oc, rule names_distinct)
  have qin: "querySelector_in d' i mnav_toggle = querySelector_in d i mnav_toggle" for i
    by (rule querySelector_in_cong [OF rt]) (rule oc, rule names_distinct)
  have first: "querySelector_in d i mnav_toggle = Some t"
    if "t \<in> set (querySelectorAll d mnav_toggle)" "closest d t mnav_item = Some i" for t i
  proof -
    from mk that(1) have "case closest d t mnav_item of None \<Rightarrow> True
      | Some i \<Rightarrow> querySelector_in d i mnav_toggle = Some t"
      unfolding menu_markup_def by blast
    with that(2) show ?thesis by simp
  qed
  have items: "mnav_item \<in> classList d n"
    if "n \<in> set (elements d)" "mnav_expanded \<in> classList d n" for n
    using mk that by (simp add: menu_markup_def querySelectorAll_def)
  have i0_item: "mnav_item \<in> classList d i0" using closest_Some [OF cl] by simp
  have in_S: "i \<in> set (querySelectorAll_in d p0 mnav_expanded)"
    if s: "s \<in> set (querySelectorAll_in d p0 mnav_expanded)"
      and q: "querySelector_in d s mnav_toggle = Some t"
      and c: "closest d t mnav_item = Some i"
      and e: "mnav_expanded \<in> classList d i" for s t i
  proof -
    from s have s': "s \<in> set (elements d)" "p0 \<in> set (ancestors s)"
      "mnav_expanded \<in> classList d s" by (simp_all add: querySelectorAll_in_def)
    from querySelector_in_Some [OF q] have t: "t \<in> set (elements d)" "s \<in> set (ancestors t)"
      by simp_all
    from closest_nearest [OF c _ items [OF s'(1,3)]] t(2)
    have "s = i \<or> s \<in> set (ancestors i)" by simp
    with s'(2) have "p0 \<in> set (ancestors i)" by (auto intro: ancestors_trans)
    moreover from closest_Some [OF c] t(1) have "i \<in> set (elements d)"
      by (auto intro: elements_ancestors)
    ultimately show ?thesis using e by (simp add: querySelectorAll_in_def)
  qed
  have markup': "menu_markup d'"
    unfolding menu_markup_def tog clo qin
  proof (intro conjI ballI)
    fix t assume "t \<in> set (querySelectorAll d mnav_toggle)"
    with mk show "case closest d t mnav_item of None \<Rightarrow> True
      | Some i \<Rightarrow> querySelector_in d i mnav_toggle = Some t"
      unfolding menu_markup_def by blast
  next
    fix n assume "n \<in> set (querySelectorAll d' mnav_expanded)"
    then have n: "n \<in> set (elements d)" "mnav_expanded \<in> classList d' n"
      by (simp_all add: querySelectorAll_def el)
    have "mnav_item \<in> classList d n"
    proof (cases "n = i0")
      case True
      with i0_item show ?thesis by simp
    next
      case False
      with ex [of n] n(2) have "mnav_expanded \<in> classList d n" by simp
      with n(1) show ?thesis by (rule items)
    qed
    then show "mnav_item \<in> classList d' n" using oc [of mnav_item n] names_distinct by simp
  qed
  have mirror': "aria_mirrors d'"
    unfolding aria_mirrors_def tog clo
  proof (intro ballI)
    fix t assume t: "t \<in> set (querySelectorAll d mnav_toggle)"
    show "case closest d t mnav_item of None \<Rightarrow> True
      | Some i \<Rightarrow> getAttribute d' t aria_expanded =
          Some (if mnav_expanded \<in> classList d' i then ''true'' else ''false'')"
    proof (cases "closest d t mnav_item")
      case None
      then show ?thesis by simp
    next
      case (Some i)
      from mi t have "case closest d t mnav_item of None \<Rightarrow> True
        | Some i \<Rightarrow> getAttribute d t aria_expanded =
            Some (if mnav_expanded \<in> classList d i then ''true'' else ''false'')"
        unfolding aria_mirrors_def by blast
      with Some have before: "attributes d t aria_expanded =
          Some (if mnav_expanded \<in> classList d i then ''true'' else ''false'')"
        by (simp add: getAttribute_def)
      have q: "querySelector_in d i mnav_toggle = Some t" using t Some by (rule first)
      have goal: "attributes d' t aria_expanded =
          Some (if mnav_expanded \<in> classList d' i then ''true'' else ''false'')"
      proof (cases "t = t0")
        case True
        with Some cl have "i = i0" by simp
        with True at [of t0 aria_expanded] ex [of i0] show ?thesis by simp
      next
        case False
        have "i \<noteq> i0"
        proof
          assume "i = i0"
          with q first [OF t0 cl] False show False by simp
        qed
        show ?thesis
        proof (cases "\<exists>s \<in> set (querySelectorAll_in d p0 mnav_expanded).
                         s \<noteq> i0 \<and> querySelector_in d s mnav_toggle = Some t")
          case True
          then obtain s where s: "s \<in> set (querySelectorAll_in d p0 mnav_expanded)"
            "querySelector_in d s mnav_toggle = Some t" by blast
          have "mnav_expanded \<notin> classList d' i"
          proof
            assume "mnav_expanded \<in> classList d' i"
            with ex [of i] \<open>i \<noteq> i0\<close> have e: "mnav_expanded \<in> classList d i"
              "i \<notin> set (querySelectorAll_in d p0 mnav_expanded)" by simp_all
            from in_S [OF s Some e(1)] e(2) show False by simp
          qed
          moreover from at [of t aria_expanded] False True
          have "attributes d' t aria_expanded = Some ''false''" by simp
          ultimately show ?thesis by simp
        next
          case untouched: False
          with at [of t aria_expanded] \<open>t \<noteq> t0\<close>
          have "attributes d' t aria_expanded = attributes d t aria_expanded" by simp
          moreover have "mnav_expanded \<in> classList d' i \<longleftrightarrow> mnav_expanded \<in> classList d i"
          proof -
            have "i \<notin> set (querySelectorAll_in d p0 mnav_expanded)"
              using untouched q \<open>i \<noteq> i0\<close> by blast
            with ex [of i] \<open>i \<noteq> i0\<close> show ?thesis by simp
          qed
          ultimately show ?thesis using before by simp
        qed
      qed
      with Some show ?thesis by (simp add: getAttribute_def)
    qed
  qed
  from markup' mirror' show ?thesis ..
qed

lemma deliver_toggle_keeps_toggles:
  "querySelectorAll (deliver s (ToggleClick t) k d) mnav_toggle = querySelectorAll d mnav_toggle"
proof (cases rule: deliver_toggle_cases [of s t k d])
  case unchanged
  then show ?thesis by simp
next
  case (toggled i p)
  show ?thesis
    by (rule querySelectorAll_cong [OF toggle_click_root [OF toggled(3)]])
       (rule toggle_click_other_classes [OF toggled(3)], rule names_distinct)
qed

lemma deliver_toggle_preserves_mirror:
  assumes "menu_markup d \<and> aria_mirrors d" and "t \<in> set (querySelectorAll d mnav_toggle)"
  shows "menu_markup (deliver s (ToggleClick t) k d) \<and>
         aria_mirrors (deliver s (ToggleClick t) k d)"
proof (cases rule: deliver_toggle_cases [of s t k d])
  case unchanged
  with assms show ?thesis by simp
next
  case (toggled i p)
  from assms(1) have "menu_markup d" "aria_mirrors d" by simp_all
  then show ?thesis using assms(2) toggled by (rule toggle_click_preserves_mirror)
qed

lemma toggle_clicks_preserve_mirror:
  "menu_markup d \<and> aria_mirrors d \<Longrightarrow> set ts \<subseteq> set (querySelectorAll d mnav_toggle) \<Longrightarrow>
   menu_markup (fold (\<lambda>t. deliver s (ToggleClick t) k) ts d) \<and>
   aria_mirrors (fold (\<lambda>t. deliver s (ToggleClick t) k) ts d)"
proof (induction ts arbitrary: d)
  case Nil
  then show ?case by simp
next
  case (Cons t ts)
  from Cons.prems have "menu_markup (deliver s (ToggleClick t) k d) \<and>
      aria_mirrors (deliver s (ToggleClick t) k d)"
    by (intro deliver_toggle_preserves_mirror) simp_all
  moreover from Cons.prems(2)
  have "set ts \<subseteq> set (querySelectorAll (deliver s (ToggleClick t) k d) mnav_toggle)"
    by (simp add: deliver_toggle_keeps_toggles)
  ultimately show ?case using Cons.IH by simp
qed

section \<open>Frames and start-up\<close>

subsection \<open>What no listener changes\<close>

lemma settle_simps: "settle d (Inr d') = d'" "settle d (Inl e) = d"
  by (simp_all add: settle_def)

lemma settle_toggle_click_frame:
  "root (settle d (toggle_click t d)) = root d"
  "body (settle d (toggle_click t d)) = body d"
  "disabled (settle d (toggle_click t d)) = disabled d"
  "c \<noteq> mnav_expanded \<Longrightarrow>
     c \<in> classList (settle d (toggle_click t d)) n \<longleftrightarrow> c \<in> classList d n"
proof -
  show "root (settle d (toggle_click t d)) = root d"
    by (cases "toggle_click t d") (simp_all add: settle_def toggle_click_root)
  show "body (settle d (toggle_click t d)) = body d"
    by (auto simp: settle_def toggle_click_def Let_def classList_toggle_def setAttribute_def
        classList_add_def classList_remove_def fold_collapse_frame split: option.splits)
  show "disabled (settle d (toggle_click t d)) = disabled d"
    by (auto simp: settle_def toggle_click_def Let_def classList_toggle_def setAttribute_def
        classList_add_def classList_remove_def fold_collapse_frame split: option.splits)
  show "c \<noteq> mnav_expanded \<Longrightarrow>
     c \<in> classList (settle d (toggle_click t d)) n \<longleftrightarrow> c \<in> classList d n"
    by (cases "toggle_click t d") (simp_all add: settle_def toggle_click_other_classes)
qed

lemma handleStickyHeader_frame:
  "root (handleStickyHeader hs h d) = root d"
  "body (handleStickyHeader hs h d) = body d"
  "disabled (handleStickyHeader hs h d) = disabled d"
  "c \<noteq> sticky_active \<Longrightarrow> c \<noteq> sticky_inactive \<Longrightarrow>
     c \<in> classList (handleStickyHeader hs h d) n \<longleftrightarrow> c \<in> classList d n"
  by (auto simp: handleStickyHeader_def Let_def classList_add_def classList_remove_def)

lemma mobile_nav_frame:
  "openMobileNav mo d = Inr d' \<Longrightarrow>
     root d' = root d \<and> body d' = body d \<and> disabled d' = disabled d"
  "closeMobileNav mo d = Inr d' \<Longrightarrow>
     root d' = root d \<and> body d' = body d \<and> disabled d' = disabled d"
  "openMobileNav mo d = Inr d' \<Longrightarrow> c \<noteq> mnav_active \<Longrightarrow>
     c \<in> classList d' n \<longleftrightarrow> c \<in> classList d n"
  "closeMobileNav mo d = Inr d' \<Longrightarrow> c \<noteq> mnav_active \<Longrightarrow>
     c \<in> classList d' n \<longleftrightarrow> c \<in> classList d n"
  by (auto simp: openMobileNav_def closeMobileNav_def Let_def classList_add_def
        classList_remove_def setAttribute_def split: option.splits if_splits)

lemma deliver_root: "root (deliver s h k d) = root d"
proof (cases h)
  case (ToggleClick t)
  then show ?thesis by (simp add: deliver_def settle_toggle_click_frame)
next
  case (ParentLinkClick l)
  then show ?thesis
    by (simp add: deliver_def settle_simps parent_link_click_def click_def
          settle_toggle_click_frame split: option.splits)
next
  case EscapeKeydown
  then show ?thesis
    by (auto simp: deliver_def settle_def keydown_handler_def
          split: sum.splits option.splits if_splits dest: mobile_nav_frame(2))
qed (auto simp: deliver_def settle_def handleStickyHeader_frame split: sum.splits
       dest: mobile_nav_frame(1,2))

lemma deliver_other_classes:
  assumes c: "c \<noteq> mnav_active" "c \<noteq> mnav_expanded" "c \<noteq> sticky_active"
    "c \<noteq> sticky_inactive"
  shows "c \<in> classList (deliver s h k d) n \<longleftrightarrow> c \<in> classList d n"
proof (cases h)
  case (ToggleClick t)
  then show ?thesis by (simp add: deliver_def settle_toggle_click_frame c)
next
  case (ParentLinkClick l)
  then show ?thesis
    by (simp add: deliver_def settle_simps parent_link_click_def click_def
          settle_toggle_click_frame c split: option.splits)
next
  case EscapeKeydown
  then show ?thesis
    using mobile_nav_frame(4) [of "mnavOpen s" d _ c n] c
    by (auto simp: deliver_def settle_def keydown_handler_def
          split: sum.splits option.splits if_splits)
next
  case OpenClick
  then show ?thesis
    using mobile_nav_frame(3) [of "mnavOpen s" d _ c n] c
    by (auto simp: deliver_def settle_def split: sum.splits)
next
  case CloseClick
  then show ?thesis
    using mobile_nav_frame(4) [of "mnavOpen s" d _ c n] c
    by (auto simp: deliver_def settle_def split: sum.splits)
next
  case OverlayClick
  then show ?thesis
    using mobile_nav_frame(4) [of "mnavOpen s" d _ c n] c
    by (auto simp: deliver_def settle_def split: sum.splits)
next
  case (StickyHeader hs ht)
  then show ?thesis
    by (simp add: deliver_def settle_def handleStickyHeader_frame c)
qed




lemma markup_names_untouched:
  "mnav_toggle \<noteq> mnav_active" "mnav_toggle \<noteq> mnav_expanded" "mnav_toggle \<noteq> sticky_active"
  "mnav_toggle \<noteq> sticky_inactive"
  "mnav_item \<noteq> mnav_active" "mnav_item \<noteq> mnav_expanded" "mnav_item \<noteq> sticky_active"
  "mnav_item \<noteq> sticky_inactive"
  "mnav_expanded \<noteq> sticky_active" "mnav_expanded \<noteq> sticky_inactive"
  by (simp_all add: mnav_toggle_def mnav_item_def mnav_active_def mnav_expanded_def
        sticky_active_def sticky_inactive_def)


subsection \<open>What start-up registers\<close>


lemma init_listeners:
  "listeners (fst (init d)) =
     listeners (start_navigation d) @
     (case querySelector d sticky_element of
        None \<Rightarrow> []
      | Some m \<Rightarrow>
          (case querySelector d header_sticky of
             None \<Rightarrow> []
           | Some hs \<Rightarrow> map (on_window (StickyHeader hs (boundingHeight d hs)))
                          [''resize'', ''scroll'', ''load'']))"
  by (simp add: init_def Let_def split: option.splits)

lemma start_navigation_listeners:
  "listeners (start_navigation d) =
     (case querySelector d mnav_open of None \<Rightarrow> [] | Some n \<Rightarrow> [on_click n OpenClick]) @
     (case querySelector d mnav_close of None \<Rightarrow> [] | Some n \<Rightarrow> [on_click n CloseClick]) @
     (case querySelector d mnav_overlay of None \<Rightarrow> [] | Some n \<Rightarrow> [on_click n OverlayClick]) @
     map (\<lambda>t. on_click t (ToggleClick t)) (querySelectorAll d mnav_toggle) @
     map (\<lambda>l. on_click l (ParentLinkClick l))
       (filter (\<lambda>l. getAttribute d l ''href'' = Some ''javascript:;'')
          (querySelectorAll_child d mnav_item_parent mnav_link)) @
     [on_keydown EscapeKeydown]"
  by (simp add: start_navigation_def Let_def)

lemma parent_link_listener_iff:
  "on_click l (ParentLinkClick l) \<in> set (listeners (fst (init d))) \<longleftrightarrow>
     l \<in> set (querySelectorAll_child d mnav_item_parent mnav_link) \<and>
     getAttribute d l ''href'' = Some ''javascript:;''"
  by (auto simp: init_listeners start_navigation_listeners on_click_def on_keydown_def
        on_window_def split: option.splits)

section \<open>The example pages, evaluated\<close>

lemmas names =
  mnav_open_def mnav_close_def mnav_overlay_def mnav_toggle_def mnav_item_def
  mnav_item_parent_def mnav_link_def mnav_expanded_def mnav_active_def sticky_element_def
  header_sticky_def sticky_active_def sticky_inactive_def aria_expanded_def

lemma example_elements:
  "elements example_page =
     [[], [0], [1], [0, 1], [0, 0, 1], [1, 0, 1], [1, 1], [0, 1, 1], [1, 1, 1],
      [0, 1, 1, 1], [0, 0, 1, 1, 1], [1, 0, 1, 1, 1], [2, 0, 1, 1, 1],
      [0, 2, 0, 1, 1, 1], [0, 0, 2, 0, 1, 1, 1], [1, 1, 1, 1], [0, 1, 1, 1, 1], [2, 1]]"
  by (simp add: elements_def example_page_def)

lemma example_closest:
  "closest example_page [1, 0, 1, 1, 1] mnav_item = Some [0, 1, 1, 1]"
  "closest example_page [0, 1, 1, 1, 1] mnav_item = Some [1, 1, 1, 1]"
  "closest example_page [0, 0, 1, 1, 1] mnav_item = Some [0, 1, 1, 1]"
  by (simp_all add: closest_def example_page_def names)

lemma example_parents:
  "parentElement [0, 1, 1, 1] = Some [1, 1, 1]"
  "parentElement [1, 1, 1, 1] = Some [1, 1, 1]"
  "parentElement [0, 2, 0, 1, 1, 1] = Some [2, 0, 1, 1, 1]"
  by (simp_all add: parentElement_def)

lemma example_expanded:
  "mnav_expanded \<in> classList example_page [0, 1, 1, 1]"
  "mnav_expanded \<in> classList example_page [0, 2, 0, 1, 1, 1]"
  "mnav_item \<in> classList example_page [0, 2, 0, 1, 1, 1]"
  "mnav_expanded \<notin> classList example_page [1, 1, 1, 1]"
  by (simp_all add: example_page_def names)

lemma example_expanded_children:
  "expanded_children example_page [1, 1, 1] = [[0, 1, 1, 1]]"
  by (simp add: expanded_children_def elements_def parentElement_def example_page_def names)

lemma example_expanded_below:
  "querySelectorAll_in example_page [1, 1, 1] mnav_expanded = [[0, 1, 1, 1], [0, 2, 0, 1, 1, 1]]"
  by (simp add: querySelectorAll_in_def elements_def example_page_def names)

lemma example_toggles:
  "querySelectorAll example_page mnav_toggle =
     [[1, 0, 1, 1, 1], [0, 0, 2, 0, 1, 1, 1], [0, 1, 1, 1, 1]]"
  by (simp add: querySelectorAll_def elements_def example_page_def names)

lemma example_closest_nested:
  "closest example_page [0, 0, 2, 0, 1, 1, 1] mnav_item = Some [0, 2, 0, 1, 1, 1]"
  by (simp add: closest_def example_page_def names)

lemma example_first_toggles:
  "querySelector_in example_page [0, 1, 1, 1] mnav_toggle = Some [1, 0, 1, 1, 1]"
  "querySelector_in example_page [0, 2, 0, 1, 1, 1] mnav_toggle = Some [0, 0, 2, 0, 1, 1, 1]"
  "querySelector_in example_page [1, 1, 1, 1] mnav_toggle = Some [0, 1, 1, 1, 1]"
  by (simp_all add: querySelector_in_def querySelectorAll_in_def first_of_def elements_def
        example_page_def names)

lemma example_expanded_all:
  "querySelectorAll example_page mnav_expanded = [[0, 1, 1, 1], [0, 2, 0, 1, 1, 1]]"
  by (simp add: querySelectorAll_def elements_def example_page_def names)

lemma example_menu_markup: "menu_markup example_page"
  using example_toggles example_expanded_all example_closest example_closest_nested
    example_first_toggles
  by (simp add: menu_markup_def) (simp add: example_page_def names)

lemma example_aria_mirrors: "aria_mirrors example_page"
  using example_toggles example_closest example_closest_nested
  by (simp add: aria_mirrors_def getAttribute_def) (simp add: example_page_def names)

lemma example_controls:
  "querySelector example_page mnav_open = Some [1, 0, 1]"
  "querySelector example_page mnav_close = Some [0, 1, 1]"
  "querySelector example_page mnav_overlay = Some [2, 1]"
  "querySelector example_page sticky_element = Some [0, 0, 1]"
  "querySelector example_page header_sticky = Some [0, 1]"
  by (simp_all add: querySelector_def querySelectorAll_def first_of_def elements_def
        example_page_def names)

lemma example_parent_links:
  "querySelectorAll_child example_page mnav_item_parent mnav_link = [[0, 0, 1, 1, 1]]"
  "getAttribute example_page [0, 0, 1, 1, 1] ''href'' = Some ''javascript:;''"
  by (simp_all add: querySelectorAll_child_def elements_def parentElement_def getAttribute_def
        example_page_def names)

lemma example_height: "boundingHeight example_page [0, 1] = 80"
  by (simp add: example_page_def)

lemma headerless_elements: "elements headerless_page = elements example_page"
  by (simp add: elements_def headerless_page_def)

lemma headerless_controls:
  "querySelector headerless_page sticky_element = Some [0, 0, 1]"
  "querySelector headerless_page header_sticky = None"
  "querySelector headerless_page mnav_close = None"
  "querySelectorAll headerless_page mnav_toggle =
     [[1, 0, 1, 1, 1], [0, 0, 2, 0, 1, 1, 1], [0, 1, 1, 1, 1]]"
  by (simp_all add: querySelector_def querySelectorAll_def first_of_def elements_def
        headerless_page_def example_page_def names)

lemma unlabelled_facts:
  "closest unlabelled_page [0, 1, 1, 1, 1] mnav_item = Some [1, 1, 1, 1]"
  "closest unlabelled_page [1, 0, 1, 1, 1] mnav_item = Some [0, 1, 1, 1]"
  "querySelectorAll_in unlabelled_page [1, 1, 1] mnav_expanded = []"
  "[1, 0, 1, 1, 1] \<in> set (querySelectorAll unlabelled_page mnav_toggle)"
  "mnav_expanded \<notin> classList unlabelled_page [0, 1, 1, 1]"
  "attributes unlabelled_page [1, 0, 1, 1, 1] aria_expanded = None"
  by (simp_all add: closest_def querySelectorAll_in_def querySelectorAll_def elements_def
        unlabelled_page_def example_page_def names)

lemma unlabelled_menu_markup: "menu_markup unlabelled_page"
  by (simp add: menu_markup_def closest_def querySelector_in_def querySelectorAll_in_def
        querySelectorAll_def first_of_def elements_def unlabelled_page_def example_page_def
        names)

lemma bare_has_no_marker: "querySelector bare_page sticky_element = None"
  by (simp add: querySelector_def querySelectorAll_def first_of_def bare_page_def)




section \<open>Sticky header\<close>

text \<open>
  Claim C4.  Every call of \<^verbatim>\<open>handleStickyHeader\<close>: when the scroll offset is greater than
  the cached height, the header afterwards has the cached height as its inline height, has
  the sticky-active class and has not the sticky-inactive class; when the offset is at most
  the cached height, the header afterwards has not the sticky-active class, its inline
  height is cleared, and if it had the sticky-active class before the call it has the
  sticky-inactive class.
\<close>

theorem handleStickyHeader_effect:
  "(pageYOffset d > h \<longrightarrow>
      styleHeight (handleStickyHeader hs h d) hs = Some h \<and>
      sticky_active \<in> classList (handleStickyHeader hs h d) hs \<and>
      sticky_inactive \<notin> classList (handleStickyHeader hs h d) hs) \<and>
   (pageYOffset d \<le> h \<longrightarrow>
      sticky_active \<notin> classList (handleStickyHeader hs h d) hs \<and>
      styleHeight (handleStickyHeader hs h d) hs = None \<and>
      (sticky_active \<in> classList d hs \<longrightarrow>
         sticky_inactive \<in> classList (handleStickyHeader hs h d) hs))"
  using names_distinct(5)
  by (auto simp: handleStickyHeader_def classList_add_def classList_remove_def Let_def)

theorem handleStickyHeader_effect_witness:
  "pageYOffset example_page > 80 \<and>
   styleHeight (handleStickyHeader [0, 1] 80 example_page) [0, 1] = Some 80 \<and>
   sticky_active \<in> classList (handleStickyHeader [0, 1] 80 example_page) [0, 1] \<and>
   sticky_inactive \<notin> classList (handleStickyHeader [0, 1] 80 example_page) [0, 1] \<and>
   pageYOffset ((handleStickyHeader [0, 1] 80 example_page)\<lparr>pageYOffset := 0\<rparr>) \<le> 80 \<and>
   sticky_active \<notin> classList
     (handleStickyHeader [0, 1] 80
        ((handleStickyHeader [0, 1] 80 example_page)\<lparr>pageYOffset := 0\<rparr>)) [0, 1] \<and>
   styleHeight
     (handleStickyHeader [0, 1] 80
        ((handleStickyHeader [0, 1] 80 example_page)\<lparr>pageYOffset := 0\<rparr>)) [0, 1] = None \<and>
   sticky_inactive \<in> classList
     (handleStickyHeader [0, 1] 80
        ((handleStickyHeader [0, 1] 80 example_page)\<lparr>pageYOffset := 0\<rparr>)) [0, 1]"
proof -
  let ?d1 = "handleStickyHeader [0, 1] 80 example_page"
  have up: "pageYOffset example_page > 80" by (simp add: example_page_def)
  have down: "pageYOffset (?d1\<lparr>pageYOffset := 0\<rparr>) \<le> 80" by simp
  from handleStickyHeader_effect [of 80 example_page "[0, 1]"] up
  have a: "styleHeight ?d1 [0, 1] = Some 80" "sticky_active \<in> classList ?d1 [0, 1]"
    "sticky_inactive \<notin> classList ?d1 [0, 1]"
    by simp_all
  from a(2) have "sticky_active \<in> classList (?d1\<lparr>pageYOffset := 0\<rparr>) [0, 1]" by simp
  with handleStickyHeader_effect [of 80 "?d1\<lparr>pageYOffset := 0\<rparr>" "[0, 1]"] down
  have b: "sticky_active \<notin> classList (handleStickyHeader [0, 1] 80 (?d1\<lparr>pageYOffset := 0\<rparr>)) [0, 1]"
    "styleHeight (handleStickyHeader [0, 1] 80 (?d1\<lparr>pageYOffset := 0\<rparr>)) [0, 1] = None"
    "sticky_inactive \<in> classList (handleStickyHeader [0, 1] 80 (?d1\<lparr>pageYOffset := 0\<rparr>)) [0, 1]"
    by blast+
  from up a down b show ?thesis by blast
qed

lemma scrolled_keeps_inactive:
  "sticky_inactive \<in> classList d hs \<Longrightarrow> y \<le> h \<Longrightarrow>
   sticky_inactive \<in> classList (scrolled hs h y d) hs"
  using names_distinct(5)
  by (auto simp: scrolled_def handleStickyHeader_def classList_add_def classList_remove_def
        Let_def)

lemma scrolls_keep_inactive:
  "sticky_inactive \<in> classList d hs \<Longrightarrow> \<forall>y \<in> set ys. y \<le> h \<Longrightarrow>
   sticky_inactive \<in> classList (fold (scrolled hs h) ys d) hs"
  by (induction ys arbitrary: d) (simp_all add: scrolled_keeps_inactive)

lemma scrolled_adds_inactive:
  "sticky_active \<in> classList d hs \<Longrightarrow> y \<le> h \<Longrightarrow>
   sticky_inactive \<in> classList (scrolled hs h y d) hs"
  using names_distinct(5)
  by (auto simp: scrolled_def handleStickyHeader_def classList_add_def classList_remove_def
        Let_def)

lemma scrolled_removes_inactive:
  "sticky_inactive \<in> classList d hs \<Longrightarrow>
   sticky_inactive \<notin> classList (scrolled hs h y d) hs \<Longrightarrow> y > h"
  using scrolled_keeps_inactive [of d hs y h] by (cases "y \<le> h") auto

text \<open>
  Claim C10.  Over any run of \<^verbatim>\<open>handleStickyHeader\<close> calls at offsets at most the cached
  height, the sticky-inactive class stays on the header once it is there, and it is put
  there by the first of these calls when the header was sticky-active; a call after which
  the class is gone was made at an offset greater than the cached height.
\<close>

theorem sticky_inactive_persists_until_scrolled_past:
  "((sticky_inactive \<in> classList d hs \<or> sticky_active \<in> classList d hs \<and> ys \<noteq> []) \<and>
      (\<forall>y \<in> set ys. y \<le> h) \<longrightarrow>
      sticky_inactive \<in> classList (fold (scrolled hs h) ys d) hs) \<and>
   (sticky_inactive \<in> classList d hs \<and>
      sticky_inactive \<notin> classList (scrolled hs h y d) hs \<longrightarrow> y > h)"
proof (intro conjI impI)
  assume a: "(sticky_inactive \<in> classList d hs \<or> sticky_active \<in> classList d hs \<and> ys \<noteq> []) \<and>
      (\<forall>y \<in> set ys. y \<le> h)"
  show "sticky_inactive \<in> classList (fold (scrolled hs h) ys d) hs"
  proof (cases "sticky_inactive \<in> classList d hs")
    case True
    with a show ?thesis by (simp add: scrolls_keep_inactive)
  next
    case False
    with a obtain y ys' where ys: "ys = y # ys'" and act: "sticky_active \<in> classList d hs"
      by (cases ys) auto
    from a ys have "y \<le> h" "\<forall>y \<in> set ys'. y \<le> h" by simp_all
    with act show ?thesis unfolding ys
      by (simp add: scrolls_keep_inactive scrolled_adds_inactive)
  qed
next
  assume "sticky_inactive \<in> classList d hs \<and> sticky_inactive \<notin> classList (scrolled hs h y d) hs"
  then show "h < y" using scrolled_removes_inactive by blast
qed

theorem sticky_inactive_persists_until_scrolled_past_witness:
  "sticky_active \<in> classList (scrolled [0, 1] 80 81 example_page) [0, 1] \<and>
   (0 :: real) \<le> 80 \<and> (40 :: real) \<le> 80 \<and> (80 :: real) \<le> 80 \<and>
   sticky_inactive \<in> classList
     (fold (scrolled [0, 1] 80) [0, 40, 80] (scrolled [0, 1] 80 81 example_page)) [0, 1] \<and>
   sticky_inactive \<notin> classList
     (scrolled [0, 1] 80 81
        (fold (scrolled [0, 1] 80) [0, 40, 80] (scrolled [0, 1] 80 81 example_page))) [0, 1] \<and>
   (80 :: real) < 81"
proof -
  let ?d = "scrolled [0, 1] 80 81 example_page"
  let ?e = "fold (scrolled [0, 1] 80) [0, 40, 80] ?d"
  have act: "sticky_active \<in> classList ?d [0, 1]"
    by (simp add: scrolled_def handleStickyHeader_def classList_add_def classList_remove_def
          Let_def names_distinct)
  have le: "\<forall>y \<in> set [0, 40, 80 :: real]. y \<le> 80" by simp
  from sticky_inactive_persists_until_scrolled_past [of ?d "[0, 1]" "[0, 40, 80]" 80] act le
  have kept: "sticky_inactive \<in> classList ?e [0, 1]" by simp
  have gone: "sticky_inactive \<notin> classList (scrolled [0, 1] 80 81 ?e) [0, 1]"
    by (simp add: scrolled_def [of _ _ 81] handleStickyHeader_def classList_add_def
          classList_remove_def Let_def)
  from sticky_inactive_persists_until_scrolled_past [of ?e "[0, 1]" "[]" 80 81] kept gone
  have "(80 :: real) < 81" by blast
  with act kept gone show ?thesis by simp
qed

section \<open>Submenus\<close>

text \<open>
  Claim C1.  Take the child elements of any element \<open>q\<close> as a group of siblings.  If at
  most one of them carries the expanded marker, that is still so after any sequence of
  submenu-toggle clicks, wherever in the document the toggles are.  After a click on a toggle
  whose menu item \<open>i\<close> is a child of \<open>p\<close>, at most one child of \<open>p\<close> carries the marker,
  whatever the document was before; and if \<open>i\<close> was expanded, the click removes its marker
  and leaves no child of \<open>p\<close> expanded.
\<close>

theorem accordion_one_expanded_per_level:
  "(at_most_one_expanded d q \<longrightarrow>
      at_most_one_expanded (fold (\<lambda>t. deliver s (ToggleClick t) k) ts d) q) \<and>
   (closest d t mnav_item = Some i \<and> parentElement i = Some p \<longrightarrow>
      at_most_one_expanded (deliver s (ToggleClick t) k d) p \<and>
      (mnav_expanded \<in> classList d i \<longrightarrow>
         mnav_expanded \<notin> classList (deliver s (ToggleClick t) k d) i \<and>
         expanded_children (deliver s (ToggleClick t) k d) p = []))"
proof (intro conjI impI)
  assume "at_most_one_expanded d q"
  then show "at_most_one_expanded (fold (\<lambda>t. deliver s (ToggleClick t) k) ts d) q"
    by (rule toggle_clicks_preserve_at_most_one)
next
  assume a: "closest d t mnav_item = Some i \<and> parentElement i = Some p"
  then obtain d' where d': "toggle_click t d = Inr d'"
    using toggle_click_classList [of d t i p] by blast
  then have eq: "deliver s (ToggleClick t) k d = d'" by (simp add: deliver_def settle_def)
  from a d' show "at_most_one_expanded (deliver s (ToggleClick t) k d) p"
    unfolding eq by (blast intro: toggle_click_at_most_one)
  assume "mnav_expanded \<in> classList d i"
  with a d' toggle_click_collapses_group [of d t i p d']
  show "mnav_expanded \<notin> classList (deliver s (ToggleClick t) k d) i"
    and "expanded_children (deliver s (ToggleClick t) k d) p = []"
    unfolding eq by simp_all
qed

theorem accordion_one_expanded_per_level_witness:
  "at_most_one_expanded example_page [1, 1, 1] \<and>
   closest example_page [1, 0, 1, 1, 1] mnav_item = Some [0, 1, 1, 1] \<and>
   parentElement [0, 1, 1, 1] = Some [1, 1, 1] \<and>
   mnav_expanded \<in> classList example_page [0, 1, 1, 1] \<and>
   at_most_one_expanded
     (fold (\<lambda>t. deliver (fst (init example_page)) (ToggleClick t) [])
        [[0, 1, 1, 1, 1], [1, 0, 1, 1, 1]] example_page) [1, 1, 1] \<and>
   at_most_one_expanded
     (deliver (fst (init example_page)) (ToggleClick [1, 0, 1, 1, 1]) [] example_page)
     [1, 1, 1] \<and>
   mnav_expanded \<notin> classList
     (deliver (fst (init example_page)) (ToggleClick [1, 0, 1, 1, 1]) [] example_page)
     [0, 1, 1, 1] \<and>
   expanded_children
     (deliver (fst (init example_page)) (ToggleClick [1, 0, 1, 1, 1]) [] example_page)
     [1, 1, 1] = []"
proof -
  have one: "at_most_one_expanded example_page [1, 1, 1]"
    using example_expanded_children by (simp add: at_most_one_expanded_def)
  from accordion_one_expanded_per_level
    [of example_page "[1, 1, 1]" "fst (init example_page)" "[]"
      "[[0, 1, 1, 1, 1], [1, 0, 1, 1, 1]]" "[1, 0, 1, 1, 1]" "[0, 1, 1, 1]" "[1, 1, 1]"]
    one example_closest(1) example_parents(1) example_expanded(1)
  show ?thesis by blast
qed

text \<open>
  Claim C2.  The collapse step reaches below the level of the clicked item:
  \<^verbatim>\<open>item.parentElement.querySelectorAll('.mnav__menu__item--expanded')\<close> matches every
  expanded descendant of the parent.  On the example page a click on the toggle of item C
  lists item A, a sibling of C, and item B, which is a child of the submenu of A and not of
  the parent of C; B is a menu item that is expanded before the click and loses the marker
  in it.
\<close>

theorem collapse_reaches_nested_items:
  "closest example_page [0, 1, 1, 1, 1] mnav_item = Some [1, 1, 1, 1] \<and>
   parentElement [1, 1, 1, 1] = Some [1, 1, 1] \<and>
   parentElement [0, 2, 0, 1, 1, 1] = Some [2, 0, 1, 1, 1] \<and>
   mnav_item \<in> classList example_page [0, 2, 0, 1, 1, 1] \<and>
   mnav_expanded \<in> classList example_page [0, 2, 0, 1, 1, 1] \<and>
   querySelectorAll_in example_page [1, 1, 1] mnav_expanded =
     [[0, 1, 1, 1], [0, 2, 0, 1, 1, 1]] \<and>
   mnav_expanded \<notin> classList
     (settle example_page (toggle_click [0, 1, 1, 1, 1] example_page)) [0, 2, 0, 1, 1, 1]"
proof -
  from toggle_click_classList [OF example_closest(2) example_parents(2)]
  obtain d' where d': "toggle_click [0, 1, 1, 1, 1] example_page = Inr d'" by blast
  from expanded_after_toggle [OF example_closest(2) example_parents(2) d', of "[0, 2, 0, 1, 1, 1]"]
    example_expanded_below
  have "mnav_expanded \<notin> classList d' [0, 2, 0, 1, 1, 1]"
    by simp
  with d' have "mnav_expanded \<notin> classList
     (settle example_page (toggle_click [0, 1, 1, 1, 1] example_page)) [0, 2, 0, 1, 1, 1]"
    by (simp add: settle_simps)
  with example_closest(2) example_parents(2,3) example_expanded(2,3) example_expanded_below
  show ?thesis by blast
qed

text \<open>
  Claim C6, as amended.  After a click on a toggle \<open>t\<close> whose menu item is \<open>i\<close>, \<^verbatim>\<open>aria-expanded\<close> on \<open>t\<close>
  is \<^verbatim>\<open>"true"\<close> when \<open>i\<close> carries the expanded marker and \<^verbatim>\<open>"false"\<close> when it does not; every
  other menu item that the click collapsed is without the marker and the toggle found in
  it carries \<^verbatim>\<open>"false"\<close>.  For the document as a whole: in the markup the script is written
  for, if every toggle mirrors its item before a sequence of clicks on toggles of the
  document, every toggle mirrors its item after it.
\<close>

theorem aria_expanded_mirrors_expanded_class:
  "(closest d t mnav_item = Some i \<and> parentElement i = Some p \<longrightarrow>
      getAttribute (deliver s (ToggleClick t) k d) t aria_expanded =
        Some (if mnav_expanded \<in> classList (deliver s (ToggleClick t) k d) i
              then ''true'' else ''false'') \<and>
      (\<forall>c \<in> set (querySelectorAll_in d p mnav_expanded).
         c \<noteq> i \<and> mnav_item \<in> classList d c \<longrightarrow>
           mnav_expanded \<notin> classList (deliver s (ToggleClick t) k d) c \<and>
           (\<forall>ct. querySelector_in (deliver s (ToggleClick t) k d) c mnav_toggle = Some ct \<longrightarrow>
              getAttribute (deliver s (ToggleClick t) k d) ct aria_expanded = Some ''false''))) \<and>
   (menu_markup d \<and> aria_mirrors d \<and> set ts \<subseteq> set (querySelectorAll d mnav_toggle) \<longrightarrow>
      menu_markup (fold (\<lambda>t. deliver s (ToggleClick t) k) ts d) \<and>
      aria_mirrors (fold (\<lambda>t. deliver s (ToggleClick t) k) ts d))"
proof (intro conjI impI ballI allI)
  assume "menu_markup d \<and> aria_mirrors d \<and> set ts \<subseteq> set (querySelectorAll d mnav_toggle)"
  then have "menu_markup (fold (\<lambda>t. deliver s (ToggleClick t) k) ts d) \<and>
      aria_mirrors (fold (\<lambda>t. deliver s (ToggleClick t) k) ts d)"
    by (intro toggle_clicks_preserve_mirror) simp_all
  then show "menu_markup (fold (\<lambda>t. deliver s (ToggleClick t) k) ts d)"
    and "aria_mirrors (fold (\<lambda>t. deliver s (ToggleClick t) k) ts d)" by simp_all
next
  assume a: "closest d t mnav_item = Some i \<and> parentElement i = Some p"
  then have cl: "closest d t mnav_item = Some i" and pa: "parentElement i = Some p"
    by simp_all
  from toggle_click_classList [OF cl pa] obtain d' where tc: "toggle_click t d = Inr d'"
    by blast
  then have eq: "deliver s (ToggleClick t) k d = d'" by (simp add: deliver_def settle_simps)
  show "getAttribute (deliver s (ToggleClick t) k d) t aria_expanded =
        Some (if mnav_expanded \<in> classList (deliver s (ToggleClick t) k d) i
              then ''true'' else ''false'')"
    unfolding eq by (rule toggle_click_mirrors_clicked [OF cl pa tc])
  fix c assume c: "c \<in> set (querySelectorAll_in d p mnav_expanded)"
    and "c \<noteq> i \<and> mnav_item \<in> classList d c"
  then have c': "c \<noteq> i" "mnav_item \<in> classList d c" by simp_all
  show "mnav_expanded \<notin> classList (deliver s (ToggleClick t) k d) c"
    unfolding eq by (rule toggle_click_mirrors_collapsed(1) [OF cl pa tc c c'])
  fix ct assume "querySelector_in (deliver s (ToggleClick t) k d) c mnav_toggle = Some ct"
  then show "getAttribute (deliver s (ToggleClick t) k d) ct aria_expanded = Some ''false''"
    unfolding eq by (rule toggle_click_mirrors_collapsed(2) [OF cl pa tc c c'])
qed

theorem aria_expanded_mirrors_expanded_class_witness:
  "closest example_page [0, 1, 1, 1, 1] mnav_item = Some [1, 1, 1, 1] \<and>
   parentElement [1, 1, 1, 1] = Some [1, 1, 1] \<and>
   [0, 1, 1, 1] \<in> set (querySelectorAll_in example_page [1, 1, 1] mnav_expanded) \<and>
   ([0, 1, 1, 1] :: node) \<noteq> [1, 1, 1, 1] \<and>
   mnav_item \<in> classList example_page [0, 1, 1, 1] \<and>
   menu_markup example_page \<and> aria_mirrors example_page \<and>
   set [[0, 1, 1, 1, 1], [0, 0, 2, 0, 1, 1, 1], [0, 1, 1, 1, 1]]
     \<subseteq> set (querySelectorAll example_page mnav_toggle) \<and>
   getAttribute
     (deliver (fst (init example_page)) (ToggleClick [0, 1, 1, 1, 1]) [] example_page)
     [0, 1, 1, 1, 1] aria_expanded =
     Some (if mnav_expanded \<in> classList
                (deliver (fst (init example_page)) (ToggleClick [0, 1, 1, 1, 1]) [] example_page)
                [1, 1, 1, 1]
           then ''true'' else ''false'') \<and>
   mnav_expanded \<notin> classList
     (deliver (fst (init example_page)) (ToggleClick [0, 1, 1, 1, 1]) [] example_page)
     [0, 1, 1, 1] \<and>
   querySelector_in
     (deliver (fst (init example_page)) (ToggleClick [0, 1, 1, 1, 1]) [] example_page)
     [0, 1, 1, 1] mnav_toggle = Some [1, 0, 1, 1, 1] \<and>
   getAttribute
     (deliver (fst (init example_page)) (ToggleClick [0, 1, 1, 1, 1]) [] example_page)
     [1, 0, 1, 1, 1] aria_expanded = Some ''false'' \<and>
   aria_mirrors
     (fold (\<lambda>t. deliver (fst (init example_page)) (ToggleClick t) [])
        [[0, 1, 1, 1, 1], [0, 0, 2, 0, 1, 1, 1], [0, 1, 1, 1, 1]] example_page)"
proof -
  have q: "querySelector_in
     (deliver (fst (init example_page)) (ToggleClick [0, 1, 1, 1, 1]) [] example_page)
     [0, 1, 1, 1] mnav_toggle = Some [1, 0, 1, 1, 1]"
    using querySelector_in_cong [OF deliver_root deliver_other_classes
        [OF markup_names_untouched(1-4)], of "fst (init example_page)"
        "ToggleClick [0, 1, 1, 1, 1]" "[]" example_page "[0, 1, 1, 1]"]
      example_first_toggles(1)
    by simp
  have s: "[0, 1, 1, 1] \<in> set (querySelectorAll_in example_page [1, 1, 1] mnav_expanded)"
    using example_expanded_below by simp
  have s': "([0, 1, 1, 1] :: node) \<noteq> [1, 1, 1, 1]"
    "mnav_item \<in> classList example_page [0, 1, 1, 1]"
    by (simp_all add: example_page_def names)
  have ts: "set [[0, 1, 1, 1, 1], [0, 0, 2, 0, 1, 1, 1], [0, 1, 1, 1, 1]]
     \<subseteq> set (querySelectorAll example_page mnav_toggle)"
    using example_toggles by simp
  from aria_expanded_mirrors_expanded_class
    [of example_page "[0, 1, 1, 1, 1]" "[1, 1, 1, 1]" "[1, 1, 1]" "fst (init example_page)" "[]"
      "[[0, 1, 1, 1, 1], [0, 0, 2, 0, 1, 1, 1], [0, 1, 1, 1, 1]]"]
    example_closest(2) example_parents(2) s s' ts example_menu_markup example_aria_mirrors q
  show ?thesis by blast
qed

text \<open>
  Claim C6 as it stands fails, because the listener writes \<^verbatim>\<open>aria-expanded\<close> only on the
  clicked toggle and on the toggles of the items it collapses.  On the page without
  \<^verbatim>\<open>aria-expanded\<close> attributes, after a click on the toggle of item C the toggle of item A
  still has no \<^verbatim>\<open>aria-expanded\<close> attribute, where the claim asks for \<^verbatim>\<open>"false"\<close>.
\<close>

theorem untouched_toggle_has_no_aria_expanded:
  "menu_markup unlabelled_page \<and>
   [1, 0, 1, 1, 1] \<in> set (querySelectorAll unlabelled_page mnav_toggle) \<and>
   closest unlabelled_page [1, 0, 1, 1, 1] mnav_item = Some [0, 1, 1, 1] \<and>
   mnav_expanded \<notin> classList
     (deliver (fst (init unlabelled_page)) (ToggleClick [0, 1, 1, 1, 1]) [] unlabelled_page)
     [0, 1, 1, 1] \<and>
   getAttribute
     (deliver (fst (init unlabelled_page)) (ToggleClick [0, 1, 1, 1, 1]) [] unlabelled_page)
     [1, 0, 1, 1, 1] aria_expanded = None \<and>
   \<not> aria_mirrors
     (deliver (fst (init unlabelled_page)) (ToggleClick [0, 1, 1, 1, 1]) [] unlabelled_page)"
proof -
  let ?d = "deliver (fst (init unlabelled_page)) (ToggleClick [0, 1, 1, 1, 1]) [] unlabelled_page"
  from toggle_click_classList [OF unlabelled_facts(1) example_parents(2)]
  obtain d' where tc: "toggle_click [0, 1, 1, 1, 1] unlabelled_page = Inr d'" by blast
  then have eq: "?d = d'" by (simp add: deliver_def settle_simps)
  have cls: "mnav_expanded \<notin> classList d' [0, 1, 1, 1]"
    using expanded_after_toggle [OF unlabelled_facts(1) example_parents(2) tc, of "[0, 1, 1, 1]"]
      unlabelled_facts(5)
    by simp
  have att: "getAttribute d' [1, 0, 1, 1, 1] aria_expanded = None"
    using toggle_click_attributes [OF unlabelled_facts(1) example_parents(2) tc,
        of "[1, 0, 1, 1, 1]" aria_expanded] unlabelled_facts(3,6)
    by (simp add: getAttribute_def)
  have tog: "[1, 0, 1, 1, 1] \<in> set (querySelectorAll d' mnav_toggle)"
    using querySelectorAll_cong [OF toggle_click_root [OF tc], of mnav_toggle]
      toggle_click_other_classes [OF tc, of mnav_toggle] names_distinct unlabelled_facts(4)
    by simp
  have clo: "closest d' [1, 0, 1, 1, 1] mnav_item = Some [0, 1, 1, 1]"
    using closest_cong [of mnav_item d' unlabelled_page "[1, 0, 1, 1, 1]"]
      toggle_click_other_classes [OF tc, of mnav_item] names_distinct unlabelled_facts(2)
    by simp
  have "\<not> aria_mirrors d'"
  proof
    assume "aria_mirrors d'"
    then have "\<forall>t \<in> set (querySelectorAll d' mnav_toggle).
      case closest d' t mnav_item of None \<Rightarrow> True
      | Some i \<Rightarrow> getAttribute d' t aria_expanded =
          Some (if mnav_expanded \<in> classList d' i then ''true'' else ''false'')"
      by (simp only: aria_mirrors_def)
    from bspec [OF this tog]
    have "case closest d' [1, 0, 1, 1, 1] mnav_item of None \<Rightarrow> True
      | Some i \<Rightarrow> getAttribute d' [1, 0, 1, 1, 1] aria_expanded =
          Some (if mnav_expanded \<in> classList d' i then ''true'' else ''false'')" .
    with clo att show False by simp
  qed
  note r = unlabelled_menu_markup unlabelled_facts(4) unlabelled_facts(2)
    cls [folded eq] att [folded eq] this [folded eq]
  show ?thesis by (intro conjI) (rule r)+
qed

section \<open>Mobile navigation\<close>

lemma perform_body: "body (perform s a d) = body d"
  by (cases a)
     (auto simp: deliver_def settle_def keydown_handler_def
        split: sum.splits option.splits if_splits dest: mobile_nav_frame(1,2))

lemma perform_flag:
  "body d = Some b \<Longrightarrow> nav_is_open (perform s a d) = spec_nav_flag (nav_is_open d) [a]"
  by (cases a)
     (auto simp: deliver_def settle_def keydown_handler_def nav_is_open_def
        openMobileNav_def closeMobileNav_def Let_def classList_add_def classList_remove_def
        setAttribute_def split: option.splits)

lemma spec_nav_flag_step: "spec_nav_flag flag (a # as) = spec_nav_flag (spec_nav_flag flag [a]) as"
  by (cases a) simp_all

lemma performs_flag:
  "body d = Some b \<Longrightarrow>
   nav_is_open (fold (perform s) as d) = spec_nav_flag (nav_is_open d) as"
proof (induction as arbitrary: d)
  case Nil
  show ?case by simp
next
  case (Cons a as)
  from Cons.prems have "body (perform s a d) = Some b" by (simp add: perform_body)
  from Cons.IH [OF this] perform_flag [OF Cons.prems, of s a]
  show ?case using spec_nav_flag_step [of "nav_is_open d" a as] by simp
qed

lemma spec_nav_flag_last:
  "as \<noteq> [] \<or> \<not> flag \<Longrightarrow> spec_nav_flag flag as \<longleftrightarrow> as \<noteq> [] \<and> last as = OpenTriggerClick"
proof (induction as arbitrary: flag)
  case Nil
  then show ?case by simp
next
  case (Cons a as)
  show ?case
  proof (cases as)
    case Nil
    then show ?thesis by (cases a) simp_all
  next
    case (Cons a' as')
    with Cons.IH [of "spec_nav_flag flag [a]"] spec_nav_flag_step [of flag a as]
    show ?thesis by simp
  qed
qed

text \<open>
  Claim C3.  Over any sequence of open-trigger clicks, close-trigger clicks, overlay clicks
  and Escape presses on a document with a body, the marker class on the body follows the
  flag of the specification.  So when the sequence is not empty, or the marker was absent
  before it, the marker is present afterwards exactly when the last action of the sequence
  is an open-trigger click: after an open-trigger click the flag is set, hence any action
  that follows it (Escape included) is a close action.
\<close>

theorem mobile_nav_open_iff_last_action_opened:
  assumes "body d = Some b"
  shows "nav_is_open (fold (perform s) as d) = spec_nav_flag (nav_is_open d) as \<and>
         (as \<noteq> [] \<or> mnav_active \<notin> classList d b \<longrightarrow>
            (mnav_active \<in> classList (fold (perform s) as d) b \<longleftrightarrow>
               as \<noteq> [] \<and> last as = OpenTriggerClick))"
proof -
  have b: "body (fold (perform s) as d) = Some b"
    using assms by (induction as arbitrary: d) (simp_all add: perform_body)
  have flag: "nav_is_open (fold (perform s) as d) = spec_nav_flag (nav_is_open d) as"
    using assms by (rule performs_flag)
  have "mnav_active \<in> classList (fold (perform s) as d) b \<longleftrightarrow>
          as \<noteq> [] \<and> last as = OpenTriggerClick"
    if "as \<noteq> [] \<or> mnav_active \<notin> classList d b"
  proof -
    from that assms have "as \<noteq> [] \<or> \<not> nav_is_open d" by (simp add: nav_is_open_def)
    from spec_nav_flag_last [OF this] flag b show ?thesis by (simp add: nav_is_open_def)
  qed
  with flag show ?thesis by blast
qed

theorem mobile_nav_open_iff_last_action_opened_witness:
  "body example_page = Some [1] \<and>
   mnav_active \<notin> classList example_page [1] \<and>
   mnav_active \<in> classList
     (fold (perform (fst (init example_page)))
        [OpenTriggerClick, EscapePressed, OverlayClicked, OpenTriggerClick] example_page) [1] \<and>
   mnav_active \<notin> classList
     (fold (perform (fst (init example_page)))
        [OpenTriggerClick, EscapePressed] example_page) [1]"
proof -
  have b: "body example_page = Some [1]" by (simp add: example_page_def)
  have off: "mnav_active \<notin> classList example_page [1]" by (simp add: example_page_def)
  from mobile_nav_open_iff_last_action_opened [OF b, of "fst (init example_page)"
      "[OpenTriggerClick, EscapePressed, OverlayClicked, OpenTriggerClick]"] off
  have on: "mnav_active \<in> classList
     (fold (perform (fst (init example_page)))
        [OpenTriggerClick, EscapePressed, OverlayClicked, OpenTriggerClick] example_page) [1]"
    by simp
  from mobile_nav_open_iff_last_action_opened [OF b, of "fst (init example_page)"
      "[OpenTriggerClick, EscapePressed]"] off
  have "mnav_active \<notin> classList
     (fold (perform (fst (init example_page)))
        [OpenTriggerClick, EscapePressed] example_page) [1]"
    by simp
  with b off on show ?thesis by blast
qed

subsection \<open>Escape\<close>

text \<open>
  Claim C9.  Start-up registers the keydown listener on the document whatever the document
  contains, also when start-up ends with the exception of the sticky header; and a key
  press while the marker class is absent from the body leaves the document as it was.
\<close>

theorem escape_listener_registered_and_idle_when_closed:
  "on_keydown EscapeKeydown \<in> set (listeners (fst (init d0))) \<and>
   (\<not> nav_is_open d \<longrightarrow> deliver s EscapeKeydown k d = d)"
  by (auto simp: init_listeners start_navigation_listeners deliver_def settle_def
        keydown_handler_def nav_is_open_def split: option.splits)

theorem escape_listener_registered_and_idle_when_closed_witness:
  "\<not> nav_is_open example_page \<and>
   on_keydown EscapeKeydown \<in> set (listeners (fst (init example_page))) \<and>
   deliver (fst (init example_page)) EscapeKeydown ''Escape'' example_page = example_page"
proof -
  have "\<not> nav_is_open example_page" by (simp add: nav_is_open_def example_page_def)
  with escape_listener_registered_and_idle_when_closed
    [of example_page example_page "fst (init example_page)" "''Escape''"]
  show ?thesis by blast
qed

section \<open>Repeated triggers\<close>

lemma toggle_click_twice_flips:
  assumes cl: "closest d t mnav_item = Some i" and pa: "parentElement i = Some p"
  shows "mnav_expanded \<in> classList (deliver s (ToggleClick t) k (deliver s (ToggleClick t) k d)) i
         \<longleftrightarrow> mnav_expanded \<notin> classList (deliver s (ToggleClick t) k d) i"
proof -
  from toggle_click_classList [OF cl pa] obtain d1 where d1: "toggle_click t d = Inr d1"
    by blast
  have cl1: "closest d1 t mnav_item = Some i"
    using closest_cong [of mnav_item d1 d t] toggle_click_other_classes [OF d1] names_distinct cl
    by simp
  from toggle_click_classList [OF cl1 pa] obtain d2 where d2: "toggle_click t d1 = Inr d2"
    by blast
  from expanded_after_toggle [OF cl1 pa d2, of i]
  have "mnav_expanded \<in> classList d2 i \<longleftrightarrow> mnav_expanded \<notin> classList d1 i" by simp
  with d1 d2 show ?thesis by (simp add: deliver_def settle_simps)
qed

lemma open_idempotent:
  "deliver s OpenClick k (deliver s OpenClick k d) = deliver s OpenClick k d"
  by (auto simp: deliver_def settle_def openMobileNav_def Let_def classList_add_def
        setAttribute_def split: option.splits)

lemma close_idempotent:
  "deliver s CloseClick k (deliver s CloseClick k d) = deliver s CloseClick k d"
  "deliver s OverlayClick k (deliver s OverlayClick k d) = deliver s OverlayClick k d"
  by (auto simp: deliver_def settle_def closeMobileNav_def Let_def classList_remove_def
        setAttribute_def split: option.splits)

lemma escape_idempotent:
  "deliver s EscapeKeydown k (deliver s EscapeKeydown k d) = deliver s EscapeKeydown k d"
  by (auto simp: deliver_def settle_def keydown_handler_def closeMobileNav_def Let_def
        classList_remove_def setAttribute_def split: option.splits)

lemma insert_again: "a \<noteq> b \<Longrightarrow> insert a (insert a X - {b}) = insert a X - {b}"
  by auto

lemma sticky_idempotent:
  "deliver s (StickyHeader hs h) k (deliver s (StickyHeader hs h) k d) =
   deliver s (StickyHeader hs h) k d"
  using names_distinct(5,6)
  by (auto simp: deliver_def settle_def handleStickyHeader_def Let_def classList_add_def
        classList_remove_def insert_again)

text \<open>
  Claim C8, as amended.  Delivered twice in a row, the open-trigger click, the close-trigger
  click, the overlay click, the key press and the sticky handler leave the document as one
  delivery does.  The submenu-toggle click does not: whenever it finds its menu item, the
  second click undoes the first on that item's expanded marker.
\<close>

theorem repeated_trigger_idempotent_except_toggle:
  "deliver s OpenClick k (deliver s OpenClick k d) = deliver s OpenClick k d \<and>
   deliver s CloseClick k (deliver s CloseClick k d) = deliver s CloseClick k d \<and>
   deliver s OverlayClick k (deliver s OverlayClick k d) = deliver s OverlayClick k d \<and>
   deliver s EscapeKeydown k (deliver s EscapeKeydown k d) = deliver s EscapeKeydown k d \<and>
   deliver s (StickyHeader hs h) k (deliver s (StickyHeader hs h) k d) =
     deliver s (StickyHeader hs h) k d \<and>
   (closest d t mnav_item = Some i \<and> parentElement i = Some p \<longrightarrow>
      (mnav_expanded \<in> classList (deliver s (ToggleClick t) k (deliver s (ToggleClick t) k d)) i
       \<longleftrightarrow> mnav_expanded \<notin> classList (deliver s (ToggleClick t) k d) i))"
  by (simp add: open_idempotent close_idempotent escape_idempotent sticky_idempotent
        toggle_click_twice_flips)

theorem repeated_trigger_idempotent_except_toggle_witness:
  "closest example_page [0, 1, 1, 1, 1] mnav_item = Some [1, 1, 1, 1] \<and>
   parentElement [1, 1, 1, 1] = Some [1, 1, 1] \<and>
   deliver (fst (init example_page)) OpenClick []
     (deliver (fst (init example_page)) OpenClick [] example_page) =
     deliver (fst (init example_page)) OpenClick [] example_page \<and>
   (mnav_expanded \<in> classList
      (deliver (fst (init example_page)) (ToggleClick [0, 1, 1, 1, 1]) []
         (deliver (fst (init example_page)) (ToggleClick [0, 1, 1, 1, 1]) [] example_page))
      [1, 1, 1, 1]) =
   (mnav_expanded \<notin> classList
      (deliver (fst (init example_page)) (ToggleClick [0, 1, 1, 1, 1]) [] example_page)
      [1, 1, 1, 1])"
  using repeated_trigger_idempotent_except_toggle
    [of "fst (init example_page)" "[]" example_page "[0, 1]" 80 "[0, 1, 1, 1, 1]"
      "[1, 1, 1, 1]" "[1, 1, 1]"]
    example_closest(2) example_parents(2)
  by blast

text \<open>
  Claim C8 as it stands fails: on the example page a second click on the toggle of item C
  changes the document that the first click produced.
\<close>

theorem toggle_click_not_idempotent:
  "deliver (fst (init example_page)) (ToggleClick [0, 1, 1, 1, 1]) []
     (deliver (fst (init example_page)) (ToggleClick [0, 1, 1, 1, 1]) [] example_page) \<noteq>
   deliver (fst (init example_page)) (ToggleClick [0, 1, 1, 1, 1]) [] example_page"
  using toggle_click_twice_flips [OF example_closest(2) example_parents(2),
      of "fst (init example_page)" "[]"]
  by auto

section \<open>Start-up\<close>

text \<open>
  Claim C5.  Start-up throws exactly when the sticky marker element is present and the
  sticky header element is absent.  Whatever else is present or absent, and also when
  start-up throws, a click listener is registered for the open trigger, for the close
  trigger and for the overlay when that element exists, for every toggle and for every
  parent link with the placeholder href, and the keydown listener is registered.  When
  the marker and the header both exist, the three window listeners are registered and
  \<^verbatim>\<open>handleStickyHeader\<close> has run once; when the marker is absent the document is untouched.
\<close>

theorem init_throws_only_for_missing_sticky_header:
  "((\<exists>e. snd (init d) = Inl e) \<longleftrightarrow>
      querySelector d sticky_element \<noteq> None \<and> querySelector d header_sticky = None) \<and>
   (\<forall>n. querySelector d mnav_open = Some n \<longrightarrow>
      on_click n OpenClick \<in> set (listeners (fst (init d)))) \<and>
   (\<forall>n. querySelector d mnav_close = Some n \<longrightarrow>
      on_click n CloseClick \<in> set (listeners (fst (init d)))) \<and>
   (\<forall>n. querySelector d mnav_overlay = Some n \<longrightarrow>
      on_click n OverlayClick \<in> set (listeners (fst (init d)))) \<and>
   (\<forall>t \<in> set (querySelectorAll d mnav_toggle).
      on_click t (ToggleClick t) \<in> set (listeners (fst (init d)))) \<and>
   (\<forall>l \<in> set (querySelectorAll_child d mnav_item_parent mnav_link).
      getAttribute d l ''href'' = Some ''javascript:;'' \<longrightarrow>
      on_click l (ParentLinkClick l) \<in> set (listeners (fst (init d)))) \<and>
   on_keydown EscapeKeydown \<in> set (listeners (fst (init d))) \<and>
   (\<forall>m hs. querySelector d sticky_element = Some m \<and> querySelector d header_sticky = Some hs \<longrightarrow>
      (\<forall>e \<in> set [''resize'', ''scroll'', ''load''].
         on_window (StickyHeader hs (boundingHeight d hs)) e \<in> set (listeners (fst (init d)))) \<and>
      snd (init d) = Inr (handleStickyHeader hs (boundingHeight d hs) d)) \<and>
   (querySelector d sticky_element = None \<longrightarrow> snd (init d) = Inr d)"
proof (intro conjI allI ballI impI)
  show "(\<exists>e. snd (init d) = Inl e) \<longleftrightarrow>
      querySelector d sticky_element \<noteq> None \<and> querySelector d header_sticky = None"
    by (auto simp: init_def Let_def split: option.splits)
  show "on_keydown EscapeKeydown \<in> set (listeners (fst (init d)))"
    by (simp add: init_listeners start_navigation_listeners)
  show "on_click n OpenClick \<in> set (listeners (fst (init d)))"
    if "querySelector d mnav_open = Some n" for n
    using that by (simp add: init_listeners start_navigation_listeners)
  show "on_click n CloseClick \<in> set (listeners (fst (init d)))"
    if "querySelector d mnav_close = Some n" for n
    using that by (simp add: init_listeners start_navigation_listeners)
  show "on_click n OverlayClick \<in> set (listeners (fst (init d)))"
    if "querySelector d mnav_overlay = Some n" for n
    using that by (simp add: init_listeners start_navigation_listeners)
  show "on_click t (ToggleClick t) \<in> set (listeners (fst (init d)))"
    if "t \<in> set (querySelectorAll d mnav_toggle)" for t
    using that by (simp add: init_listeners start_navigation_listeners)
  show "on_click l (ParentLinkClick l) \<in> set (listeners (fst (init d)))"
    if "l \<in> set (querySelectorAll_child d mnav_item_parent mnav_link)"
      "getAttribute d l ''href'' = Some ''javascript:;''" for l
    using that by (simp add: parent_link_listener_iff)
  show "snd (init d) = Inr d" if "querySelector d sticky_element = None"
    using that by (simp add: init_def Let_def)
  fix m hs
  assume "querySelector d sticky_element = Some m \<and> querySelector d header_sticky = Some hs"
  then have q: "querySelector d sticky_element = Some m" "querySelector d header_sticky = Some hs"
    by simp_all
  then show "snd (init d) = Inr (handleStickyHeader hs (boundingHeight d hs) d)"
    by (simp add: init_def Let_def)
  fix e assume "e \<in> set [''resize'', ''scroll'', ''load'']"
  with q show "on_window (StickyHeader hs (boundingHeight d hs)) e \<in> set (listeners (fst (init d)))"
    by (auto simp: init_listeners)
qed

theorem init_throws_only_for_missing_sticky_header_witness:
  "querySelector example_page mnav_open = Some [1, 0, 1] \<and>
   querySelector example_page mnav_close = Some [0, 1, 1] \<and>
   querySelector example_page mnav_overlay = Some [2, 1] \<and>
   [0, 1, 1, 1, 1] \<in> set (querySelectorAll example_page mnav_toggle) \<and>
   [0, 0, 1, 1, 1] \<in> set (querySelectorAll_child example_page mnav_item_parent mnav_link) \<and>
   getAttribute example_page [0, 0, 1, 1, 1] ''href'' = Some ''javascript:;'' \<and>
   querySelector example_page sticky_element = Some [0, 0, 1] \<and>
   querySelector example_page header_sticky = Some [0, 1] \<and>
   ''scroll'' \<in> set [''resize'', ''scroll'', ''load''] \<and>
   on_click [1, 0, 1] OpenClick \<in> set (listeners (fst (init example_page))) \<and>
   on_click [0, 1, 1] CloseClick \<in> set (listeners (fst (init example_page))) \<and>
   on_click [2, 1] OverlayClick \<in> set (listeners (fst (init example_page))) \<and>
   on_click [0, 1, 1, 1, 1] (ToggleClick [0, 1, 1, 1, 1])
     \<in> set (listeners (fst (init example_page))) \<and>
   on_click [0, 0, 1, 1, 1] (ParentLinkClick [0, 0, 1, 1, 1])
     \<in> set (listeners (fst (init example_page))) \<and>
   on_window (StickyHeader [0, 1] 80) ''scroll'' \<in> set (listeners (fst (init example_page))) \<and>
   snd (init example_page) = Inr (handleStickyHeader [0, 1] 80 example_page) \<and>
   querySelector headerless_page sticky_element \<noteq> None \<and>
   querySelector headerless_page header_sticky = None \<and>
   querySelector headerless_page mnav_close = None \<and>
   [0, 1, 1, 1, 1] \<in> set (querySelectorAll headerless_page mnav_toggle) \<and>
   (\<exists>e. snd (init headerless_page) = Inl e) \<and>
   on_click [0, 1, 1, 1, 1] (ToggleClick [0, 1, 1, 1, 1])
     \<in> set (listeners (fst (init headerless_page))) \<and>
   on_keydown EscapeKeydown \<in> set (listeners (fst (init headerless_page))) \<and>
   querySelector bare_page sticky_element = None \<and>
   snd (init bare_page) = Inr bare_page"
proof -
  have t: "[0, 1, 1, 1, 1] \<in> set (querySelectorAll example_page mnav_toggle)"
    using example_toggles by simp
  have l: "[0, 0, 1, 1, 1] \<in> set (querySelectorAll_child example_page mnav_item_parent mnav_link)"
    using example_parent_links(1) by simp
  have e: "''scroll'' \<in> set [''resize'', ''scroll'', ''load'']" by simp
  have t': "[0, 1, 1, 1, 1] \<in> set (querySelectorAll headerless_page mnav_toggle)"
    using headerless_controls(4) by simp
  have m: "querySelector headerless_page sticky_element \<noteq> None"
    using headerless_controls(1) by simp
  note ex = init_throws_only_for_missing_sticky_header [of example_page]
  note hl = init_throws_only_for_missing_sticky_header [of headerless_page]
  note ex' = ex [THEN conjunct2]
  note ex'' = ex' [THEN conjunct2, THEN conjunct2, THEN conjunct2]
  note hl' = hl [THEN conjunct2, THEN conjunct2, THEN conjunct2, THEN conjunct2]
  have 1: "on_click [1, 0, 1] OpenClick \<in> set (listeners (fst (init example_page)))"
    by (rule ex' [THEN conjunct1, rule_format, OF example_controls(1)])
  have 2: "on_click [0, 1, 1] CloseClick \<in> set (listeners (fst (init example_page)))"
    by (rule ex' [THEN conjunct2, THEN conjunct1, rule_format, OF example_controls(2)])
  have 3: "on_click [2, 1] OverlayClick \<in> set (listeners (fst (init example_page)))"
    by (rule ex' [THEN conjunct2, THEN conjunct2, THEN conjunct1, rule_format,
          OF example_controls(3)])
  have 4: "on_click [0, 1, 1, 1, 1] (ToggleClick [0, 1, 1, 1, 1])
     \<in> set (listeners (fst (init example_page)))"
    by (rule ex'' [THEN conjunct1, rule_format, OF t])
  have 5: "on_click [0, 0, 1, 1, 1] (ParentLinkClick [0, 0, 1, 1, 1])
     \<in> set (listeners (fst (init example_page)))"
    by (rule ex'' [THEN conjunct2, THEN conjunct1, rule_format, OF l example_parent_links(2)])
  have both: "querySelector example_page sticky_element = Some [0, 0, 1] \<and>
      querySelector example_page header_sticky = Some [0, 1]"
    using example_controls(4,5) by (rule conjI)
  note st = ex'' [THEN conjunct2, THEN conjunct2, THEN conjunct2, THEN conjunct1,
      rule_format, OF both]
  have 6: "on_window (StickyHeader [0, 1] 80) ''scroll'' \<in> set (listeners (fst (init example_page)))"
    "snd (init example_page) = Inr (handleStickyHeader [0, 1] 80 example_page)"
    using st [THEN conjunct1, rule_format, OF e] st [THEN conjunct2]
    by (simp_all only: example_height)
  have "querySelector headerless_page sticky_element \<noteq> None \<and>
      querySelector headerless_page header_sticky = None"
    using m headerless_controls(2) by (rule conjI)
  then have 7: "\<exists>e. snd (init headerless_page) = Inl e"
    by (rule hl [THEN conjunct1, THEN iffD2])
  have 8: "on_click [0, 1, 1, 1, 1] (ToggleClick [0, 1, 1, 1, 1])
     \<in> set (listeners (fst (init headerless_page)))"
    by (rule hl' [THEN conjunct1, rule_format, OF t'])
  have 9: "on_keydown EscapeKeydown \<in> set (listeners (fst (init headerless_page)))"
    by (rule hl' [THEN conjunct2, THEN conjunct2, THEN conjunct1])
  note bare = init_throws_only_for_missing_sticky_header [of bare_page]
  have 10: "snd (init bare_page) = Inr bare_page"
    by (rule bare [THEN conjunct2, THEN conjunct2, THEN conjunct2, THEN conjunct2,
          THEN conjunct2, THEN conjunct2, THEN conjunct2, THEN conjunct2, rule_format,
          OF bare_has_no_marker])
  note example_controls example_parent_links(2) headerless_controls(2,3) bare_has_no_marker
  show ?thesis by (intro conjI) fact+
qed

section \<open>Parent links\<close>




end
